theory Spec2Isabelle
  imports Complex_Main "HOL-Library.Log_Nat"
begin

section \<open>Tensors, loads and launch arithmetic\<close>

text \<open>
  The kernels of \<^verbatim>\<open>fla/ops/gla/fused_chunk.py\<close> receive raw pointers together with the
  extents \<open>T\<close>, \<open>K\<close>, \<open>V\<close>. One (batch, head) slice of a tensor is modelled as a function
  from (row, column) to a real number, the extents being passed next to it as the kernels
  do. Arithmetic is exact: storage precision and the casts \<^verbatim>\<open>.to(...)\<close> are not modelled.
  Every program of a launch grid owns the addresses it stores to, so a tensor written by a
  grid is the function that maps an address to the value its owning program stores there.
\<close>

type_synonym mat = "nat \<Rightarrow> nat \<Rightarrow> real"

text \<open>
  The exceptions of the wrappers: a division by zero, a failed \<^verbatim>\<open>assert\<close> with its
  message, a shape \<^verbatim>\<open>rearrange\<close> cannot split, and operands \<^verbatim>\<open>@\<close> cannot multiply.
\<close>

datatype error = ZeroDivisionError | AssertionError string | EinopsError | RuntimeError

text \<open>
  \<^verbatim>\<open>tl.load(p, boundary_check=(0, 1))\<close> on a block pointer of shape \<open>(R, C)\<close> and
  \<^verbatim>\<open>tl.load(p, mask=mask, other=0)\<close>: lanes outside the tensor read as zero.
\<close>

definition load :: "nat \<Rightarrow> nat \<Rightarrow> mat \<Rightarrow> nat \<Rightarrow> nat \<Rightarrow> real" where
  "load R C m i j = (if i < R \<and> j < C then m i j else 0)"

text \<open>\<^verbatim>\<open>triton.cdiv(x, y) = (x + y - 1) // y\<close>; the caller guards \<open>y = 0\<close>.\<close>

definition cdiv :: "nat \<Rightarrow> nat \<Rightarrow> nat" where
  "cdiv x y = (x + y - 1) div y"

text \<open>\<^verbatim>\<open>def ceildiv(a, b): return -(a // -b)\<close>, on the natural numbers the callers pass.\<close>

definition ceildiv :: "nat \<Rightarrow> nat \<Rightarrow> nat" where
  "ceildiv a b = nat (- ((int a) div (- (int b))))"

text \<open>
  Modelled from the spec: \<^verbatim>\<open>exp\<close> and \<^verbatim>\<open>safe_exp\<close> are imported from
  \<^verbatim>\<open>fla.ops.utils.op\<close>, which is not among the sources. \<^verbatim>\<open>exp\<close> is the exponential
  function. The safe exponential is "a clamped exponential that returns exactly zero for
  arguments below a large negative threshold"; the threshold \<open>thr\<close> is a parameter.
\<close>

definition safe_exp :: "real \<Rightarrow> real \<Rightarrow> real" where
  "safe_exp thr x = (if x < thr then 0 else exp x)"

text \<open>
  Modelled from the spec: \<^verbatim>\<open>chunk_local_cumsum\<close> is imported from \<^verbatim>\<open>fla.ops.utils\<close>, which
  is not among the sources. It is the chunk-local cumulative sum restarting at every chunk
  start: \<open>cumsum[t] = \<Sum> gate[t']\<close> for \<open>t'\<close> from the start of the chunk of \<open>t\<close> up to \<open>t\<close>.
\<close>

definition chunk_local_cumsum :: "nat \<Rightarrow> mat \<Rightarrow> mat" where
  "chunk_local_cumsum BT g t c = (\<Sum>s = (t div BT) * BT..t. g s c)"

section \<open>Forward kernels\<close>

text \<open>
  \<^verbatim>\<open>prepare_qg_kg\<close>: program \<open>(i_k, i_c)\<close> walks the \<open>BT\<close> rows of chunk \<open>i_c\<close>. Row \<open>t\<close>,
  column \<open>c\<close> receives \<^verbatim>\<open>b_q * (exp(b_g) * scale)\<close> and \<^verbatim>\<open>b_k * exp(last_decay - b_g)\<close>,
  where \<^verbatim>\<open>last_decay\<close> is row \<open>i_c * BT + BT - 1\<close> of \<open>g\<close>. The result is the pair
  \<open>(qg, kg)\<close>.
\<close>

definition prepare_qg_kg :: "real \<Rightarrow> nat \<Rightarrow> mat \<Rightarrow> mat \<Rightarrow> mat \<Rightarrow> mat \<times> mat" where
  "prepare_qg_kg scale BT q k g =
     (\<lambda>t c. q t c * (exp (g t c) * scale),
      \<lambda>t c. k t c * exp (g ((t div BT) * BT + BT - 1) c - g t c))"

text \<open>
  \<^verbatim>\<open>fused_chunk_gla_fwd_kernel\<close>, the carried register \<^verbatim>\<open>b_h\<close>: its value on entry to
  iteration \<open>i\<close> of the chunk loop. It starts at zero plus the boundary-checked load of
  \<^verbatim>\<open>h0\<close> when \<^verbatim>\<open>USE_INITIAL_STATE\<close>; iteration \<open>i\<close> replaces it by
  \<^verbatim>\<open>b_h * exp(b_gn)[:, None] + tl.dot(b_k, b_v)\<close>, where \<^verbatim>\<open>b_gn\<close> is row
  \<open>i * BT + BT - 1\<close> of \<open>g\<close>, masked by \<open>c < K\<close>.
\<close>

fun fused_chunk_gla_fwd_state ::
  "nat \<Rightarrow> nat \<Rightarrow> nat \<Rightarrow> nat \<Rightarrow> mat \<Rightarrow> mat \<Rightarrow> mat \<Rightarrow> mat option \<Rightarrow> nat \<Rightarrow> mat" where
  "fused_chunk_gla_fwd_state T K V BT k v g h0 0 =
     (\<lambda>c j. case h0 of None \<Rightarrow> 0 | Some h \<Rightarrow> 0 + load K V h c j)"
| "fused_chunk_gla_fwd_state T K V BT k v g h0 (Suc i) =
     (\<lambda>c j. fused_chunk_gla_fwd_state T K V BT k v g h0 i c j
               * exp (if c < K then g (i * BT + BT - 1) c else 0)
             + (\<Sum>r<BT. load T K k (i * BT + r) c * load T V v (i * BT + r) j))"

text \<open>
  The block \<^verbatim>\<open>b_o = tl.dot(b_q, b_h)\<close> that program \<open>i_k\<close> stores into \<^verbatim>\<open>o[i_k]\<close>: the
  product runs over the \<open>BK\<close> key columns of the program, against the register before
  its update in the same iteration.
\<close>

definition fused_chunk_gla_fwd_kernel ::
  "nat \<Rightarrow> nat \<Rightarrow> nat \<Rightarrow> nat \<Rightarrow> nat \<Rightarrow> mat \<Rightarrow> mat \<Rightarrow> mat \<Rightarrow> mat \<Rightarrow> mat option \<Rightarrow> nat \<Rightarrow> mat" where
  "fused_chunk_gla_fwd_kernel T K V BT BK q k v g h0 i_k t j =
     (\<Sum>c = i_k * BK..<i_k * BK + BK.
        load T K q t c * fused_chunk_gla_fwd_state T K V BT k v g h0 (t div BT) c j)"

text \<open>\<^verbatim>\<open>STORE_FINAL_STATE\<close>: the register after the last of the \<open>cdiv T BT\<close> iterations.\<close>

definition fused_chunk_gla_fwd_final ::
  "nat \<Rightarrow> nat \<Rightarrow> nat \<Rightarrow> nat \<Rightarrow> mat \<Rightarrow> mat \<Rightarrow> mat \<Rightarrow> mat option \<Rightarrow> mat" where
  "fused_chunk_gla_fwd_final T K V BT k v g h0 =
     fused_chunk_gla_fwd_state T K V BT k v g h0 (cdiv T BT)"

text \<open>
  \<^verbatim>\<open>fwd_inner_chunk\<close>: program \<open>(i_k, i_t)\<close> writes row \<open>i\<close> of the \<open>BT \<times> BT\<close> block of
  chunk \<open>i_t\<close> as \<^verbatim>\<open>tl.where(o_i <= i, tl.sum(b_q[None, :] * b_k * safe_exp(b_gq[None, :] - b_g), axis=1), 0)\<close>
  with \<^verbatim>\<open>b_q = load(q) * scale\<close>. The score tensor has one row per time step \<open>t\<close>
  (\<open>t = i_t * BT + i\<close>) and \<open>BT\<close> columns.
\<close>

definition fwd_inner_chunk ::
  "real \<Rightarrow> nat \<Rightarrow> nat \<Rightarrow> nat \<Rightarrow> nat \<Rightarrow> mat \<Rightarrow> mat \<Rightarrow> mat \<Rightarrow> real \<Rightarrow> nat \<Rightarrow> mat" where
  "fwd_inner_chunk thr T K BT BK q k g scale i_k t j =
     (if j \<le> t mod BT then
        (\<Sum>c = i_k * BK..<i_k * BK + BK.
           (if c < K then q t c else 0) * scale
           * load T K k ((t div BT) * BT + j) c
           * safe_exp thr ((if c < K then g t c else 0) - load T K g ((t div BT) * BT + j) c))
      else 0)"

section \<open>The forward pass\<close>

text \<open>What \<^verbatim>\<open>ctx.save_for_backward(q, k, v, g_org, A, initial_state)\<close> and the attributes keep.\<close>

record ctx =
  saved_q :: mat
  saved_k :: mat
  saved_v :: mat
  saved_g_org :: mat
  saved_A :: mat
  saved_initial_state :: "mat option"
  ctx_scale :: real

text \<open>
  \<^verbatim>\<open>FusedChunkGLAFunction.forward\<close> for one (batch, head) slice of extents \<open>T\<close>, \<open>K\<close>,
  \<open>V\<close>. \<^verbatim>\<open>triton.cdiv(K, BK)\<close> divides by \<^verbatim>\<open>BK = min(K, 64)\<close>, which Python refuses for
  an empty key or value axis. The partial outputs \<^verbatim>\<open>o[i_k]\<close> and scores \<^verbatim>\<open>A[i_k]\<close> of the
  \<open>NK\<close> key blocks are added by \<^verbatim>\<open>sum(0)\<close>. The source's \<^verbatim>\<open>o\<close> is \<open>o1\<close> here.

  \<^verbatim>\<open>rearrange(v, 'b h (n c) d -> b h n c d', n=num_chunk)\<close> with
  \<^verbatim>\<open>num_chunk = T // 16\<close> splits the \<open>T\<close> rows into \<open>num_chunk\<close> chunks of
  \<open>T / num_chunk\<close> rows and raises when there is no chunk or the split leaves a rest.
  \<^verbatim>\<open>o2 = A @ v2\<close> multiplies the \<open>16 \<times> 16\<close> scores of a chunk with the value rows of
  the same chunk and raises unless a chunk of \<^verbatim>\<open>v2\<close> has \<open>16\<close> rows. So the pass returns
  only for a positive multiple of \<open>16\<close> as \<open>T\<close>, the length \<^verbatim>\<open>pad\<close> produces.
\<close>

definition forward ::
  "real \<Rightarrow> nat \<Rightarrow> nat \<Rightarrow> nat \<Rightarrow> mat \<Rightarrow> mat \<Rightarrow> mat \<Rightarrow> mat \<Rightarrow> real \<Rightarrow> mat option \<Rightarrow> bool
   \<Rightarrow> error + (mat \<times> mat option \<times> ctx)" where
  "forward thr T K V q k v g_org scale initial_state output_final_state =
     (if K = 0 \<or> V = 0 then Inl ZeroDivisionError
      else
        let BT = 16;
            BK = min K 64;
            NK = cdiv K BK;
            g = chunk_local_cumsum BT g_org;
            (q_g, k_g) = prepare_qg_kg scale BT q k g;
            o1 = (\<lambda>t d. \<Sum>i_k<NK.
                   fused_chunk_gla_fwd_kernel T K V BT BK q_g k_g v g initial_state i_k t d);
            final_state =
              (if output_final_state
               then Some (fused_chunk_gla_fwd_final T K V BT k_g v g initial_state)
               else None);
            chunk_size = 16;
            num_chunk = T div chunk_size
        in if num_chunk = 0 \<or> T mod num_chunk \<noteq> 0 then Inl EinopsError
           else
             let A = (\<lambda>t j. \<Sum>i_k<NK. fwd_inner_chunk thr T K BT BK q k g scale i_k t j)
             in if T div num_chunk \<noteq> BT then Inl RuntimeError
                else
                  let o2 = (\<lambda>t d. \<Sum>j<BT. A t j * v ((t div BT) * BT + j) d)
                  in Inr (\<lambda>t d. o1 t d + o2 t d, final_state,
                          \<lparr>saved_q = q, saved_k = k, saved_v = v, saved_g_org = g_org,
                           saved_A = A, saved_initial_state = initial_state,
                           ctx_scale = scale\<rparr>))"

text \<open>
  \<^verbatim>\<open>pad\<close>: the time axis is extended with zero rows to the next multiple of the chunk
  size.
\<close>

definition pad :: "nat \<Rightarrow> nat \<Rightarrow> mat \<Rightarrow> nat \<times> mat" where
  "pad chunk_size T x =
     (let padded_seq_len = ceildiv T chunk_size * chunk_size
      in (padded_seq_len, \<lambda>t c. if t < T then x t c else 0))"

text \<open>
  \<^verbatim>\<open>fused_chunk_gla\<close> with \<^verbatim>\<open>head_first=False\<close>: the default scale \<open>-1\<close> stands for
  \<^verbatim>\<open>K ** -0.5\<close>; the inputs are padded, the output is cut back to \<^verbatim>\<open>seq_len\<close> rows.
\<close>

definition fused_chunk_gla ::
  "real \<Rightarrow> nat \<Rightarrow> nat \<Rightarrow> nat \<Rightarrow> mat \<Rightarrow> mat \<Rightarrow> mat \<Rightarrow> mat \<Rightarrow> real \<Rightarrow> mat option \<Rightarrow> bool
   \<Rightarrow> error + (mat \<times> mat option)" where
  "fused_chunk_gla thr T K V q k v g scale initial_state output_final_state =
     (let scale' = (if scale = - 1 then real K powr (- (1 / 2)) else scale);
          seq_len = T;
          (T', q') = pad 16 T q;
          (_, k') = pad 16 T k;
          (_, v') = pad 16 T v;
          (_, g') = pad 16 T g
      in case forward thr T' K V q' k' v' g' scale' initial_state output_final_state of
           Inl e \<Rightarrow> Inl e
         | Inr (out, final_state, _) \<Rightarrow>
             Inr (\<lambda>t d. if t < seq_len then out t d else 0, final_state))"

section \<open>The launch of the forward pass, named\<close>

text \<open>
  The two results of the state-passing launch inside \<open>forward\<close>, as functions of the
  inputs of the pass: the register \<^verbatim>\<open>b_h\<close> on entry to chunk \<open>i\<close>, and the inter-chunk
  output \<^verbatim>\<open>o.sum(0)\<close> before the intra-chunk part is added.
\<close>

definition launch_state ::
  "nat \<Rightarrow> nat \<Rightarrow> nat \<Rightarrow> nat \<Rightarrow> real \<Rightarrow> mat \<Rightarrow> mat \<Rightarrow> mat \<Rightarrow> mat \<Rightarrow> mat option \<Rightarrow> nat \<Rightarrow> mat" where
  "launch_state T K V BT scale q k v g_org h0 =
     fused_chunk_gla_fwd_state T K V BT
       (snd (prepare_qg_kg scale BT q k (chunk_local_cumsum BT g_org))) v
       (chunk_local_cumsum BT g_org) h0"

definition launch_inter_output ::
  "nat \<Rightarrow> nat \<Rightarrow> nat \<Rightarrow> nat \<Rightarrow> nat \<Rightarrow> nat \<Rightarrow> real \<Rightarrow> mat \<Rightarrow> mat \<Rightarrow> mat \<Rightarrow> mat \<Rightarrow> mat option \<Rightarrow> mat" where
  "launch_inter_output T K V BT BK NK scale q k v g_org h0 t d =
     (\<Sum>i_k<NK. fused_chunk_gla_fwd_kernel T K V BT BK
        (fst (prepare_qg_kg scale BT q k (chunk_local_cumsum BT g_org)))
        (snd (prepare_qg_kg scale BT q k (chunk_local_cumsum BT g_org))) v
        (chunk_local_cumsum BT g_org) h0 i_k t d)"

text \<open>The score matrix \<^verbatim>\<open>A.sum(0)\<close> of the intra-chunk launch inside \<open>forward\<close>.\<close>

definition launch_scores ::
  "real \<Rightarrow> nat \<Rightarrow> nat \<Rightarrow> nat \<Rightarrow> nat \<Rightarrow> nat \<Rightarrow> real \<Rightarrow> mat \<Rightarrow> mat \<Rightarrow> mat \<Rightarrow> mat" where
  "launch_scores thr T K BT BK NK scale q k g_org t j =
     (\<Sum>i_k<NK. fwd_inner_chunk thr T K BT BK q k (chunk_local_cumsum BT g_org) scale i_k t j)"

text \<open>Reading one entry of what \<open>fused_chunk_gla\<close> returns; an error has none.\<close>

definition result_output :: "error + (mat \<times> mat option) \<Rightarrow> nat \<Rightarrow> nat \<Rightarrow> real option" where
  "result_output r t d = (case r of Inl e \<Rightarrow> None | Inr (out, fs) \<Rightarrow> Some (out t d))"

definition result_final_state :: "error + (mat \<times> mat option) \<Rightarrow> nat \<Rightarrow> nat \<Rightarrow> real option" where
  "result_final_state r c d =
     (case r of Inl e \<Rightarrow> None
      | Inr (out, fs) \<Rightarrow> (case fs of None \<Rightarrow> None | Some h \<Rightarrow> Some (h c d)))"

section \<open>What the specification says, in its own words\<close>

text \<open>
  The sequential reference: \<open>S_t = S_{t-1} \<cdot> exp(gate_t) + key_t\<^sup>T \<cdot> value_t\<close>, one time
  step at a time. \<open>recurrence_state \<dots> t\<close> is the state after \<open>t\<close> steps, so the state
  before step \<open>t\<close> (counted from zero) is \<open>recurrence_state \<dots> t\<close> and the state after it
  is \<open>recurrence_state \<dots> (Suc t)\<close>.
\<close>

fun recurrence_state :: "mat \<Rightarrow> mat \<Rightarrow> mat \<Rightarrow> mat \<Rightarrow> nat \<Rightarrow> mat" where
  "recurrence_state g k v S0 0 = S0"
| "recurrence_state g k v S0 (Suc t) =
     (\<lambda>c j. recurrence_state g k v S0 t c j * exp (g t c) + k t c * v t j)"

definition initial_or_zero :: "mat option \<Rightarrow> mat" where
  "initial_or_zero h0 = (case h0 of None \<Rightarrow> (\<lambda>c j. 0) | Some h \<Rightarrow> h)"

text \<open>
  The output the specification names: the query of step \<open>t\<close> applied to the decayed past
  state \<open>S_{t-1} \<cdot> exp(gate_t)\<close>.
\<close>

definition decayed_past_output :: "nat \<Rightarrow> mat \<Rightarrow> mat \<Rightarrow> mat \<Rightarrow> mat \<Rightarrow> mat \<Rightarrow> mat" where
  "decayed_past_output K q g k v S0 t d =
     (\<Sum>c<K. q t c * (recurrence_state g k v S0 t c d * exp (g t c)))"

text \<open>
  The output the engine computes: the scaled query of step \<open>t\<close> applied to the state after
  step \<open>t\<close>, which holds the key and value of step \<open>t\<close> itself.
\<close>

definition recurrence_output :: "nat \<Rightarrow> real \<Rightarrow> mat \<Rightarrow> mat \<Rightarrow> mat \<Rightarrow> mat \<Rightarrow> mat \<Rightarrow> mat" where
  "recurrence_output K scale q g k v S0 t d =
     scale * (\<Sum>c<K. q t c * recurrence_state g k v S0 (Suc t) c d)"

text \<open>
  No exponent of the intra-chunk scores falls below the threshold of the safe exponential:
  for every step \<open>t < T\<close>, every earlier or equal step of its chunk and every key channel.
\<close>

definition no_clamp :: "real \<Rightarrow> nat \<Rightarrow> nat \<Rightarrow> nat \<Rightarrow> mat \<Rightarrow> bool" where
  "no_clamp thr T K BT g =
     (\<forall>t<T. \<forall>j\<le>t mod BT. \<forall>c<K.
        thr \<le> chunk_local_cumsum BT g t c - chunk_local_cumsum BT g ((t div BT) * BT + j) c)"

text \<open>
  The quantities of the state-passing step: the decay of a whole chunk, the query row scaled
  by the exponential of its chunk-local cumulative decay and by the attention scale, the key
  row scaled by the exponential of the decay that remains to the end of its chunk.
\<close>

definition chunk_total_decay :: "nat \<Rightarrow> mat \<Rightarrow> nat \<Rightarrow> nat \<Rightarrow> real" where
  "chunk_total_decay BT g i c = (\<Sum>s = i * BT..<i * BT + BT. g s c)"

definition decay_scaled_query :: "real \<Rightarrow> nat \<Rightarrow> mat \<Rightarrow> mat \<Rightarrow> mat" where
  "decay_scaled_query scale BT q g t c = q t c * exp (chunk_local_cumsum BT g t c) * scale"

definition decay_scaled_key :: "nat \<Rightarrow> mat \<Rightarrow> mat \<Rightarrow> mat" where
  "decay_scaled_key BT k g t c =
     k t c * exp (chunk_total_decay BT g (t div BT) c - chunk_local_cumsum BT g t c)"

text \<open>Ungated linear attention: \<open>S \<leftarrow> S + key\<^sup>T \<cdot> value\<close>, every decay factor being one.\<close>

fun linear_attention_state :: "mat \<Rightarrow> mat \<Rightarrow> mat \<Rightarrow> nat \<Rightarrow> mat" where
  "linear_attention_state k v S0 0 = S0"
| "linear_attention_state k v S0 (Suc t) =
     (\<lambda>c j. linear_attention_state k v S0 t c j + k t c * v t j)"

definition linear_attention_output :: "nat \<Rightarrow> real \<Rightarrow> mat \<Rightarrow> mat \<Rightarrow> mat \<Rightarrow> mat \<Rightarrow> mat" where
  "linear_attention_output K scale q k v S0 t d =
     scale * (\<Sum>c<K. q t c * linear_attention_state k v S0 (Suc t) c d)"

section \<open>Concrete tensors\<close>

definition ones :: mat where
  "ones t c = 1"

definition zeros :: mat where
  "zeros t c = 0"

section \<open>Backward kernels\<close>

text \<open>
  \<^verbatim>\<open>triton.next_power_of_2\<close>: the least power of two that is not below \<open>n\<close>; the bit
  smearing of the library maps \<open>0\<close> to \<open>0\<close>.
\<close>

definition next_power_of_2 :: "nat \<Rightarrow> nat" where
  "next_power_of_2 n = (if n = 0 then 0 else 2 ^ floorlog 2 (n - 1))"

text \<open>
  \<^verbatim>\<open>fused_chunk_gla_bwd_kernel\<close>, first loop: the register \<^verbatim>\<open>b_h\<close> of shape \<open>[BV, BK]\<close> on
  entry to iteration \<open>i\<close>. It starts from zero plus the transposed load of \<^verbatim>\<open>h0\<close> and is
  replaced by \<^verbatim>\<open>b_h * exp(b_gn)[None, :] + tl.dot(b_v, b_k)\<close>, with \<^verbatim>\<open>b_gn\<close> row
  \<open>(i + 1) * BT - 1\<close> of \<open>g\<close>. The pass runs on the padded length, a multiple of \<open>BT\<close>.
\<close>

fun fused_chunk_gla_bwd_state ::
  "nat \<Rightarrow> nat \<Rightarrow> nat \<Rightarrow> nat \<Rightarrow> mat \<Rightarrow> mat \<Rightarrow> mat \<Rightarrow> mat option \<Rightarrow> nat \<Rightarrow> mat" where
  "fused_chunk_gla_bwd_state T K V BT k v g h0 0 =
     (\<lambda>j c. case h0 of None \<Rightarrow> 0 | Some h \<Rightarrow> 0 + load K V h c j)"
| "fused_chunk_gla_bwd_state T K V BT k v g h0 (Suc i) =
     (\<lambda>j c. fused_chunk_gla_bwd_state T K V BT k v g h0 i j c
               * exp (if c < K then g ((i + 1) * BT - 1) c else 0)
             + (\<Sum>r<BT. load T V v (i * BT + r) j * load T K k (i * BT + r) c))"

text \<open>
  The block \<^verbatim>\<open>b_dq\<close> that program \<open>i_v\<close> stores into \<^verbatim>\<open>dq[i_v]\<close>: zero plus
  \<^verbatim>\<open>tl.dot(b_do, b_h)\<close> over the \<open>BV\<close> value columns of the program, against the register
  before its update, then times \<^verbatim>\<open>scale\<close>.
\<close>

definition fused_chunk_gla_bwd_dq ::
  "nat \<Rightarrow> nat \<Rightarrow> nat \<Rightarrow> nat \<Rightarrow> nat \<Rightarrow> mat \<Rightarrow> mat \<Rightarrow> mat \<Rightarrow> mat \<Rightarrow> mat option \<Rightarrow> real
   \<Rightarrow> nat \<Rightarrow> mat" where
  "fused_chunk_gla_bwd_dq T K V BT BV k v g dout h0 scale i_v t c =
     (0 + (\<Sum>j = i_v * BV..<i_v * BV + BV.
             load T V dout t j * fused_chunk_gla_bwd_state T K V BT k v g h0 (t div BT) j c))
     * scale"

text \<open>
  Second loop: the register \<^verbatim>\<open>b_dh\<close> of shape \<open>[BK, BV]\<close> after \<open>n\<close> iterations, that is
  on entry to the source's iteration \<open>i = n + 1\<close>. It starts at zero; iteration \<open>i\<close> reads the
  rows from \<open>T - i * BT\<close> on and row \<open>T - (i - 1) * BT - 1\<close> of \<open>g\<close>, and replaces the register
  by \<^verbatim>\<open>b_dh * exp(b_db)[:, None] + tl.dot(b_q, b_do)\<close>.
\<close>

fun fused_chunk_gla_bwd_dh ::
  "nat \<Rightarrow> nat \<Rightarrow> nat \<Rightarrow> nat \<Rightarrow> mat \<Rightarrow> mat \<Rightarrow> mat \<Rightarrow> nat \<Rightarrow> mat" where
  "fused_chunk_gla_bwd_dh T K V BT q g dout 0 = (\<lambda>c j. 0)"
| "fused_chunk_gla_bwd_dh T K V BT q g dout (Suc n) =
     (\<lambda>c j. fused_chunk_gla_bwd_dh T K V BT q g dout n c j
               * exp (if c < K then g (T - n * BT - 1) c else 0)
             + (\<Sum>r<BT. load T K q (T - (n + 1) * BT + r) c
                        * load T V dout (T - (n + 1) * BT + r) j))"

text \<open>
  The blocks \<^verbatim>\<open>b_dk = trans(dot(b_dh, trans(b_v)))\<close> and \<^verbatim>\<open>b_dv = dot(b_k, b_dh)\<close> stored
  into \<^verbatim>\<open>dk[i_v]\<close> and \<^verbatim>\<open>dv[i_k]\<close>. Row \<open>t\<close> lies in chunk \<open>t div BT\<close>, which the loop
  visits in its iteration \<open>i = cdiv T BT - t div BT\<close>, after \<open>i - 1\<close> updates of the
  register.
\<close>

definition fused_chunk_gla_bwd_dk ::
  "nat \<Rightarrow> nat \<Rightarrow> nat \<Rightarrow> nat \<Rightarrow> nat \<Rightarrow> mat \<Rightarrow> mat \<Rightarrow> mat \<Rightarrow> mat \<Rightarrow> nat \<Rightarrow> mat" where
  "fused_chunk_gla_bwd_dk T K V BT BV q v g dout i_v t c =
     (\<Sum>j = i_v * BV..<i_v * BV + BV.
        fused_chunk_gla_bwd_dh T K V BT q g dout (cdiv T BT - t div BT - 1) c j
        * load T V v t j)"

definition fused_chunk_gla_bwd_dv ::
  "nat \<Rightarrow> nat \<Rightarrow> nat \<Rightarrow> nat \<Rightarrow> nat \<Rightarrow> mat \<Rightarrow> mat \<Rightarrow> mat \<Rightarrow> mat \<Rightarrow> nat \<Rightarrow> mat" where
  "fused_chunk_gla_bwd_dv T K V BT BK q k g dout i_k t j =
     (\<Sum>c = i_k * BK..<i_k * BK + BK.
        load T K k t c
        * fused_chunk_gla_bwd_dh T K V BT q g dout (cdiv T BT - t div BT - 1) c j)"

text \<open>
  \<^verbatim>\<open>bwd_inner_chunk\<close>: row \<open>i\<close> of the loop adds
  \<^verbatim>\<open>b_dA[:, None] * score * b_q[None, :]\<close> to the accumulator \<^verbatim>\<open>b_dk\<close> and stores
  \<^verbatim>\<open>tl.sum(b_dA[:, None] * score * b_k, axis=0)\<close> as row \<open>i\<close> of \<^verbatim>\<open>dq\<close>, with
  \<^verbatim>\<open>score = safe_exp(b_gq[None, :] - b_g)\<close> and both \<^verbatim>\<open>score\<close> and \<^verbatim>\<open>b_dA\<close> masked by
  \<open>o_i \<le> i\<close>. The result is the pair \<open>(dq, dk)\<close>.
\<close>

definition bwd_inner_chunk ::
  "real \<Rightarrow> nat \<Rightarrow> nat \<Rightarrow> nat \<Rightarrow> mat \<Rightarrow> mat \<Rightarrow> mat \<Rightarrow> mat \<Rightarrow> mat \<times> mat" where
  "bwd_inner_chunk thr T K BT q k g dA =
     (\<lambda>t c. \<Sum>j<BT.
        (if j \<le> t mod BT then dA t j else 0)
        * (if j \<le> t mod BT
           then safe_exp thr ((if c < K then g t c else 0) - load T K g ((t div BT) * BT + j) c)
           else 0)
        * load T K k ((t div BT) * BT + j) c,
      \<lambda>t c. 0 + (\<Sum>i<BT.
        (if t mod BT \<le> i then dA ((t div BT) * BT + i) (t mod BT) else 0)
        * (if t mod BT \<le> i
           then safe_exp thr ((if c < K then g ((t div BT) * BT + i) c else 0) - load T K g t c)
           else 0)
        * (if c < K then q ((t div BT) * BT + i) c else 0)))"

text \<open>
  \<^verbatim>\<open>bwd_decay_global_cumsum\<close> walks the rows of a chunk from the last to the first. Per row
  it overwrites \<^verbatim>\<open>dq_inter\<close> with \<^verbatim>\<open>b_dq1 + b_dq2 * exp(b_g)\<close> and \<^verbatim>\<open>dk_inter\<close> with
  \<^verbatim>\<open>b_dk1 + b_dk2 * safe_exp(last_g - b_g)\<close>, forms \<^verbatim>\<open>b_dg = b_dq * b_q - b_dk * b_k\<close>, adds
  it to the running sum \<^verbatim>\<open>cum_grad_dg\<close> and stores the running sum as the row of \<^verbatim>\<open>dg\<close>.
\<close>

definition decay_dq :: "mat \<Rightarrow> mat \<Rightarrow> mat \<Rightarrow> mat" where
  "decay_dq dq_inner dq_inter g t c = dq_inner t c + dq_inter t c * exp (g t c)"

definition decay_dk :: "real \<Rightarrow> nat \<Rightarrow> mat \<Rightarrow> mat \<Rightarrow> mat \<Rightarrow> mat" where
  "decay_dk thr BT dk_inner dk_inter g t c =
     dk_inner t c + dk_inter t c * safe_exp thr (g ((t div BT) * BT + BT - 1) c - g t c)"

definition decay_dg :: "real \<Rightarrow> nat \<Rightarrow> mat \<Rightarrow> mat \<Rightarrow> mat \<Rightarrow> mat \<Rightarrow> mat \<Rightarrow> mat \<Rightarrow> mat \<Rightarrow> mat" where
  "decay_dg thr BT dq_inner dq_inter dk_inner dk_inter q k g t c =
     decay_dq dq_inner dq_inter g t c * q t c
     - decay_dk thr BT dk_inner dk_inter g t c * k t c"

text \<open>
  The running sum of program \<open>i_c\<close> after \<open>n\<close> rows, the rows \<open>BT - 1\<close> down to \<open>BT - n\<close> of
  the chunk; \<open>b_dg\<close> is the per-row term.
\<close>

fun cum_grad_dg :: "nat \<Rightarrow> mat \<Rightarrow> nat \<Rightarrow> nat \<Rightarrow> nat \<Rightarrow> real" where
  "cum_grad_dg BT b_dg i_c 0 c = 0"
| "cum_grad_dg BT b_dg i_c (Suc n) c =
     cum_grad_dg BT b_dg i_c n c + b_dg (i_c * BT + BT - 1 - n) c"

text \<open>The three tensors the kernel leaves behind: \<open>(dq_inter, dk_inter, dg)\<close>.\<close>

definition bwd_decay_global_cumsum ::
  "real \<Rightarrow> nat \<Rightarrow> mat \<Rightarrow> mat \<Rightarrow> mat \<Rightarrow> mat \<Rightarrow> mat \<Rightarrow> mat \<Rightarrow> mat \<Rightarrow> mat \<times> mat \<times> mat" where
  "bwd_decay_global_cumsum thr BT dq_inner dq_inter dk_inner dk_inter q k g =
     (decay_dq dq_inner dq_inter g,
      decay_dk thr BT dk_inner dk_inter g,
      \<lambda>t c. cum_grad_dg BT (decay_dg thr BT dq_inner dq_inter dk_inner dk_inter q k g)
               (t div BT) (BT - t mod BT) c)"

section \<open>The backward pass\<close>

text \<open>
  \<^verbatim>\<open>rev_cumsum_exclusive\<close> inside \<open>backward\<close>: \<^verbatim>\<open>cumsum_x[..., -1, None, :] - cumsum_x\<close> along
  the axis of length \<open>NT\<close>. The caller hands it \<^verbatim>\<open>dg[..., 0, :]\<close>, one row per chunk, so the
  axis is the chunk axis.
\<close>

definition rev_cumsum_exclusive :: "nat \<Rightarrow> mat \<Rightarrow> mat" where
  "rev_cumsum_exclusive NT x n c = (\<Sum>m<NT. x m c) - (\<Sum>m\<le>n. x m c)"

record grads =
  grad_q :: mat
  grad_k :: mat
  grad_v :: mat
  grad_g :: mat

text \<open>
  \<^verbatim>\<open>FusedChunkGLAFunction.backward\<close> for one (batch, head) slice. \<open>ctx\<close> is what the
  forward pass saved, \<open>T\<close>, \<open>K\<close>, \<open>V\<close> are the extents of the saved tensors. The argument
  \<open>dht\<close>, the gradient of the final state, is accepted and not read. As in the forward
  pass, \<^verbatim>\<open>rearrange\<close> with \<^verbatim>\<open>n = NT = T // BT\<close> and the product
  \<^verbatim>\<open>A.transpose(-1, -2) @ do2\<close> raise unless \<open>T\<close> is a positive multiple of \<open>16\<close>.
\<close>

definition backward ::
  "real \<Rightarrow> nat \<Rightarrow> nat \<Rightarrow> nat \<Rightarrow> ctx \<Rightarrow> mat \<Rightarrow> mat option \<Rightarrow> error + grads" where
  "backward thr T K V ctx dout dht =
     (if K = 0 \<or> V = 0 then Inl ZeroDivisionError
      else
        let q = saved_q ctx; k = saved_k ctx; v = saved_v ctx; g_org = saved_g_org ctx;
            A = saved_A ctx; initial_state = saved_initial_state ctx;
            scale = ctx_scale ctx;
            BT = 16;
            g = chunk_local_cumsum BT g_org;
            (q_g, k_g) = prepare_qg_kg scale BT q k g;
            BK = min (next_power_of_2 K) 64;
            BV = min (next_power_of_2 V) 64;
            NK = cdiv K BK;
            NV = cdiv V BV;
            dq = (\<lambda>t c. \<Sum>i_v<NV.
                    fused_chunk_gla_bwd_dq T K V BT BV k_g v g dout initial_state scale i_v t c);
            dk = (\<lambda>t c. \<Sum>i_v<NV. fused_chunk_gla_bwd_dk T K V BT BV q_g v g dout i_v t c);
            dv = (\<lambda>t j. \<Sum>i_k<NK. fused_chunk_gla_bwd_dv T K V BT BK q_g k_g g dout i_k t j);
            NT = T div BT
        in if NT = 0 \<or> T mod NT \<noteq> 0 then Inl EinopsError
           else
             let dA2 = (\<lambda>t j. (\<Sum>d<V. dout t d * v ((t div BT) * BT + j) d) * scale)
             in if T div NT \<noteq> BT then Inl RuntimeError
                else
                  let dv2 = (\<lambda>t d. \<Sum>i<BT. A ((t div BT) * BT + i) (t mod BT)
                                          * dout ((t div BT) * BT + i) d);
                      (dq2, dk2) = bwd_inner_chunk thr T K BT q k g dA2;
                      (dq', dk', dg) = bwd_decay_global_cumsum thr BT dq2 dq dk2 dk q k g;
                      rev_cumsum_dg = rev_cumsum_exclusive (T div BT) (\<lambda>n c. dg (n * BT + 0) c);
                      dg' = (\<lambda>t c. dg t c + rev_cumsum_dg (t div BT) c)
                  in Inr \<lparr>grad_q = dq', grad_k = dk', grad_v = (\<lambda>t d. dv t d + dv2 t d),
                          grad_g = dg'\<rparr>)"

section \<open>The state-gradient kernel of the DPLR delta rule\<close>

text \<open>
  \<^verbatim>\<open>fla/ops/generalized_delta_rule/dplr/chunk_h_bwd.py\<close>. One (sequence, head) pair is
  modelled: the block pointers of program \<open>(i_k, i_v, i_nh)\<close> are views of shape \<open>(T, K)\<close>
  and \<open>(T, V)\<close> of that pair, with or without \<^verbatim>\<open>cu_seqlens\<close>. The wrapper admits one key
  block only, and the programs \<open>i_v\<close> work on disjoint value columns that never mix, so their
  registers are modelled together as one matrix over all value columns.

  The tensors the kernel can store to, and \<^verbatim>\<open>dv\<close>, which the caller owns:
\<close>

record dhu_mem =
  mem_dh :: "nat \<Rightarrow> mat"
  mem_dh0 :: "mat option"
  mem_dv :: mat
  mem_dv2 :: mat

text \<open>
  \<^verbatim>\<open>tl.store(p, blk, boundary_check=(0, 1))\<close> through a block pointer that starts at row
  \<open>r0\<close> and holds \<open>nr\<close> rows of a tensor of shape \<open>(R, C)\<close>.
\<close>

definition store :: "nat \<Rightarrow> nat \<Rightarrow> nat \<Rightarrow> nat \<Rightarrow> mat \<Rightarrow> mat \<Rightarrow> mat" where
  "store R C r0 nr blk m =
     (\<lambda>i j. if r0 \<le> i \<and> i < r0 + nr \<and> i < R \<and> j < C then blk (i - r0) j else m i j)"

text \<open>
  One pass of the inner loop, for sub-block \<open>i_c\<close> of chunk \<open>i_t\<close>: it stores
  \<^verbatim>\<open>b_dv2 = b_dv + tl.dot(b_bg, b_dh)\<close> into \<^verbatim>\<open>dv2\<close> and adds \<^verbatim>\<open>tl.dot(b_qg, b_do)\<close> and
  \<^verbatim>\<open>tl.dot(b_w, b_dv2)\<close> to \<^verbatim>\<open>b_dh_tmp\<close>. The state is the memory and \<^verbatim>\<open>b_dh_tmp\<close>.
\<close>

definition dhu_sub_block ::
  "nat \<Rightarrow> nat \<Rightarrow> nat \<Rightarrow> nat \<Rightarrow> nat \<Rightarrow> nat \<Rightarrow> mat \<Rightarrow> mat \<Rightarrow> mat \<Rightarrow> mat \<Rightarrow> nat \<Rightarrow> mat \<Rightarrow> nat
   \<Rightarrow> dhu_mem \<times> mat \<Rightarrow> dhu_mem \<times> mat" where
  "dhu_sub_block T K V BT BC BK qg bg w dout i_t b_dh i_c s =
     (let m = fst s; b_dh_tmp = snd s;
          r0 = i_t * BT + i_c * BC;
          b_dv2 = (\<lambda>r j. load T V (mem_dv m) (r0 + r) j
                          + (\<Sum>c<BK. load T K bg (r0 + r) c * b_dh c j));
          m' = m\<lparr>mem_dv2 := store T V r0 BC b_dv2 (mem_dv2 m)\<rparr>;
          tmp1 = (\<lambda>c j. b_dh_tmp c j
                         + (\<Sum>r<BC. load T K qg (r0 + r) c * load T V dout (r0 + r) j));
          tmp2 = (\<lambda>c j. tmp1 c j + (\<Sum>r<BC. load T K w (r0 + r) c * b_dv2 r j))
      in (m', tmp2))"

text \<open>\<^verbatim>\<open>for i_c in range(tl.cdiv(BT, BC) - 1, -1, -1)\<close>: \<open>n\<close> sub-blocks are left to do.\<close>

fun dhu_sub_loop ::
  "nat \<Rightarrow> nat \<Rightarrow> nat \<Rightarrow> nat \<Rightarrow> nat \<Rightarrow> nat \<Rightarrow> mat \<Rightarrow> mat \<Rightarrow> mat \<Rightarrow> mat \<Rightarrow> nat \<Rightarrow> mat \<Rightarrow> nat
   \<Rightarrow> dhu_mem \<times> mat \<Rightarrow> dhu_mem \<times> mat" where
  "dhu_sub_loop T K V BT BC BK qg bg w dout i_t b_dh 0 s = s"
| "dhu_sub_loop T K V BT BC BK qg bg w dout i_t b_dh (Suc n) s =
     dhu_sub_loop T K V BT BC BK qg bg w dout i_t b_dh n
       (dhu_sub_block T K V BT BC BK qg bg w dout i_t b_dh n s)"

text \<open>
  One pass of the outer loop, for chunk \<open>i_t\<close>: the register \<^verbatim>\<open>b_dh\<close> is stored into
  \<^verbatim>\<open>dh\<close> at the chunk, the inner loop runs from a zero \<^verbatim>\<open>b_dh_tmp\<close>, and the register becomes
  \<^verbatim>\<open>b_dh * exp(bg_last)[:, None] + b_dh_tmp\<close>, where \<^verbatim>\<open>bg_last\<close> is row
  \<open>min((i_t + 1) * BT, T) - 1\<close> of \<^verbatim>\<open>gk\<close>. The state is the memory and \<^verbatim>\<open>b_dh\<close>.
\<close>

definition dhu_chunk ::
  "nat \<Rightarrow> nat \<Rightarrow> nat \<Rightarrow> nat \<Rightarrow> nat \<Rightarrow> nat \<Rightarrow> mat \<Rightarrow> mat \<Rightarrow> mat \<Rightarrow> mat \<Rightarrow> mat \<Rightarrow> nat
   \<Rightarrow> dhu_mem \<times> mat \<Rightarrow> dhu_mem \<times> mat" where
  "dhu_chunk T K V BT BC BK qg bg w gk dout i_t s =
     (let m = fst s; b_dh = snd s;
          m1 = m\<lparr>mem_dh := (mem_dh m)(i_t := store K V 0 BK b_dh (mem_dh m i_t))\<rparr>;
          s2 = dhu_sub_loop T K V BT BC BK qg bg w dout i_t b_dh (cdiv BT BC) (m1, \<lambda>c j. 0);
          last_idx = min ((i_t + 1) * BT) T - 1;
          bg_last = (\<lambda>c. if c < K then gk last_idx c else 0)
      in (fst s2, \<lambda>c j. b_dh c j * exp (bg_last c) + snd s2 c j))"

text \<open>\<^verbatim>\<open>for i_t in range(NT - 1, -1, -1)\<close>: \<open>n\<close> chunks are left to do.\<close>

fun dhu_chunk_loop ::
  "nat \<Rightarrow> nat \<Rightarrow> nat \<Rightarrow> nat \<Rightarrow> nat \<Rightarrow> nat \<Rightarrow> mat \<Rightarrow> mat \<Rightarrow> mat \<Rightarrow> mat \<Rightarrow> mat \<Rightarrow> nat
   \<Rightarrow> dhu_mem \<times> mat \<Rightarrow> dhu_mem \<times> mat" where
  "dhu_chunk_loop T K V BT BC BK qg bg w gk dout 0 s = s"
| "dhu_chunk_loop T K V BT BC BK qg bg w gk dout (Suc n) s =
     dhu_chunk_loop T K V BT BC BK qg bg w gk dout n
       (dhu_chunk T K V BT BC BK qg bg w gk dout n s)"

text \<open>
  \<^verbatim>\<open>chunk_dplr_bwd_kernel_dhu\<close>: the register starts at zero plus the load of \<^verbatim>\<open>dht\<close> when
  \<^verbatim>\<open>USE_FINAL_STATE_GRADIENT\<close>, the chunks are visited from the last to the first, and the
  register is stored into \<^verbatim>\<open>dh0\<close> when \<^verbatim>\<open>USE_INITIAL_STATE\<close>.
\<close>

definition chunk_dplr_bwd_kernel_dhu ::
  "nat \<Rightarrow> nat \<Rightarrow> nat \<Rightarrow> nat \<Rightarrow> nat \<Rightarrow> nat \<Rightarrow> mat \<Rightarrow> mat \<Rightarrow> mat \<Rightarrow> mat \<Rightarrow> mat option \<Rightarrow> mat
   \<Rightarrow> dhu_mem \<Rightarrow> dhu_mem" where
  "chunk_dplr_bwd_kernel_dhu T K V BT BC BK qg bg w gk dht dout m =
     (let NT = cdiv T BT;
          b_dh = (\<lambda>c j. case dht of None \<Rightarrow> 0 | Some x \<Rightarrow> 0 + load K V x c j);
          s = dhu_chunk_loop T K V BT BC BK qg bg w gk dout NT (m, b_dh)
      in case mem_dh0 (fst s) of
           None \<Rightarrow> fst s
         | Some x \<Rightarrow> (fst s)\<lparr>mem_dh0 := Some (store K V 0 BK (snd s) x)\<rparr>)"



section \<open>Further readings of the specification and of results\<close>

text \<open>Reading one entry of what \<open>forward\<close> returns or saves; an error has none.\<close>

definition forward_output :: "error + (mat \<times> mat option \<times> ctx) \<Rightarrow> nat \<Rightarrow> nat \<Rightarrow> real option" where
  "forward_output r t d = (case r of Inl e \<Rightarrow> None | Inr (out, fs, c) \<Rightarrow> Some (out t d))"

definition forward_scores :: "error + (mat \<times> mat option \<times> ctx) \<Rightarrow> nat \<Rightarrow> nat \<Rightarrow> real option" where
  "forward_scores r t j = (case r of Inl e \<Rightarrow> None | Inr (out, fs, c) \<Rightarrow> Some (saved_A c t j))"

text \<open>
  The tensors \<^verbatim>\<open>ctx.save_for_backward\<close> holds after the forward pass, in the order of the
  call; an absent initial state saves nothing.
\<close>

definition saved_tensors :: "error + (mat \<times> mat option \<times> ctx) \<Rightarrow> mat list" where
  "saved_tensors r =
     (case r of
        Inl e \<Rightarrow> []
      | Inr (out, fs, c) \<Rightarrow>
          [saved_q c, saved_k c, saved_v c, saved_g_org c, saved_A c]
          @ (case saved_initial_state c of None \<Rightarrow> [] | Some h \<Rightarrow> [h]))"

text \<open>
  The intra-chunk interaction matrix of the specification, row \<open>t\<close> of the sequence against
  position \<open>j\<close> of its chunk: \<open>A[i,j] = scale \<cdot> \<Sum>\<^sub>c query[i,c] \<cdot> key[j,c] \<cdot> ex(cum_decay[i,c] -
  cum_decay[j,c])\<close> for \<open>j \<le> i\<close> and zero for \<open>j > i\<close>. The exponential \<open>ex\<close> is a parameter:
  the specification writes \<open>exp\<close> here.
\<close>

definition causal_scores :: "(real \<Rightarrow> real) \<Rightarrow> nat \<Rightarrow> nat \<Rightarrow> real \<Rightarrow> mat \<Rightarrow> mat \<Rightarrow> mat \<Rightarrow> mat" where
  "causal_scores ex K BT scale q k g t j =
     (if j \<le> t mod BT
      then scale * (\<Sum>c<K. q t c * k ((t div BT) * BT + j) c
                           * ex (chunk_local_cumsum BT g t c
                                 - chunk_local_cumsum BT g ((t div BT) * BT + j) c))
      else 0)"

text \<open>A tensor that is \<open>x\<close> in row \<open>r\<close> and zero elsewhere, and a gate of \<open>-200\<close> per step.\<close>

definition row_only :: "nat \<Rightarrow> real \<Rightarrow> mat" where
  "row_only r x t c = (if t = r then x else 0)"

definition low_gate :: mat where
  "low_gate t c = - 200"

section \<open>Auxiliary notions for the backward passes\<close>

text \<open>
  The row \<^verbatim>\<open>b_dv + tl.dot(b_bg, b_dh)\<close> of \<^verbatim>\<open>chunk_dplr_bwd_kernel_dhu\<close> at time step
  \<open>t\<close>, for a register \<open>b_dh\<close>.
\<close>

definition dv2_row :: "nat \<Rightarrow> nat \<Rightarrow> nat \<Rightarrow> nat \<Rightarrow> mat \<Rightarrow> mat \<Rightarrow> mat \<Rightarrow> mat" where
  "dv2_row T K V BK bg b_dh dv t j =
     load T V dv t j + (\<Sum>c<BK. load T K bg t c * b_dh c j)"




section \<open>The launches of the backward pass, named\<close>

text \<open>
  The results of the launches inside \<open>backward\<close>, as functions of the tensors the forward
  pass saved: the register \<^verbatim>\<open>b_h\<close> of the first loop of \<^verbatim>\<open>fused_chunk_gla_bwd_kernel\<close> on
  entry to chunk \<open>i\<close>, the register \<^verbatim>\<open>b_dh\<close> of its second loop after \<open>n\<close> chunks, and the
  sums \<^verbatim>\<open>dq.sum(0)\<close>, \<^verbatim>\<open>dk.sum(0)\<close>, \<^verbatim>\<open>dv.sum(0)\<close> over the programs. The kernel reads the
  prepared \<^verbatim>\<open>q_g\<close>, \<^verbatim>\<open>k_g\<close> and the chunk-local cumulative sum of the gate.
\<close>

definition launch_bwd_state ::
  "nat \<Rightarrow> nat \<Rightarrow> nat \<Rightarrow> nat \<Rightarrow> real \<Rightarrow> mat \<Rightarrow> mat \<Rightarrow> mat \<Rightarrow> mat \<Rightarrow> mat option \<Rightarrow> nat \<Rightarrow> mat" where
  "launch_bwd_state T K V BT scale q k v g_org h0 =
     fused_chunk_gla_bwd_state T K V BT
       (snd (prepare_qg_kg scale BT q k (chunk_local_cumsum BT g_org))) v
       (chunk_local_cumsum BT g_org) h0"

definition launch_dq_inter ::
  "nat \<Rightarrow> nat \<Rightarrow> nat \<Rightarrow> nat \<Rightarrow> nat \<Rightarrow> nat \<Rightarrow> real \<Rightarrow> mat \<Rightarrow> mat \<Rightarrow> mat \<Rightarrow> mat \<Rightarrow> mat option
   \<Rightarrow> mat \<Rightarrow> mat" where
  "launch_dq_inter T K V BT BV NV scale q k v g_org h0 dout t c =
     (\<Sum>i_v<NV. fused_chunk_gla_bwd_dq T K V BT BV
        (snd (prepare_qg_kg scale BT q k (chunk_local_cumsum BT g_org))) v
        (chunk_local_cumsum BT g_org) dout h0 scale i_v t c)"

definition launch_dh ::
  "nat \<Rightarrow> nat \<Rightarrow> nat \<Rightarrow> nat \<Rightarrow> real \<Rightarrow> mat \<Rightarrow> mat \<Rightarrow> mat \<Rightarrow> mat \<Rightarrow> nat \<Rightarrow> mat" where
  "launch_dh T K V BT scale q k g_org dout =
     fused_chunk_gla_bwd_dh T K V BT
       (fst (prepare_qg_kg scale BT q k (chunk_local_cumsum BT g_org)))
       (chunk_local_cumsum BT g_org) dout"

definition launch_dk_inter ::
  "nat \<Rightarrow> nat \<Rightarrow> nat \<Rightarrow> nat \<Rightarrow> nat \<Rightarrow> nat \<Rightarrow> real \<Rightarrow> mat \<Rightarrow> mat \<Rightarrow> mat \<Rightarrow> mat \<Rightarrow> mat \<Rightarrow> mat" where
  "launch_dk_inter T K V BT BV NV scale q k v g_org dout t c =
     (\<Sum>i_v<NV. fused_chunk_gla_bwd_dk T K V BT BV
        (fst (prepare_qg_kg scale BT q k (chunk_local_cumsum BT g_org))) v
        (chunk_local_cumsum BT g_org) dout i_v t c)"

definition launch_dv_inter ::
  "nat \<Rightarrow> nat \<Rightarrow> nat \<Rightarrow> nat \<Rightarrow> nat \<Rightarrow> nat \<Rightarrow> real \<Rightarrow> mat \<Rightarrow> mat \<Rightarrow> mat \<Rightarrow> mat \<Rightarrow> mat" where
  "launch_dv_inter T K V BT BK NK scale q k g_org dout t j =
     (\<Sum>i_k<NK. fused_chunk_gla_bwd_dv T K V BT BK
        (fst (prepare_qg_kg scale BT q k (chunk_local_cumsum BT g_org)))
        (snd (prepare_qg_kg scale BT q k (chunk_local_cumsum BT g_org)))
        (chunk_local_cumsum BT g_org) dout i_k t j)"

text \<open>
  \<^verbatim>\<open>dA2 = (do2 @ v2.transpose(-2, -1)) * scale\<close>, the pair \<open>(dq2, dk2)\<close> that
  \<^verbatim>\<open>bwd_inner_chunk\<close> makes of it, and the triple \<open>(dq, dk, dg)\<close> that
  \<^verbatim>\<open>bwd_decay_global_cumsum\<close> leaves behind.
\<close>

definition launch_dA :: "nat \<Rightarrow> nat \<Rightarrow> real \<Rightarrow> mat \<Rightarrow> mat \<Rightarrow> mat" where
  "launch_dA V BT scale v dout t j = (\<Sum>d<V. dout t d * v ((t div BT) * BT + j) d) * scale"

definition launch_inner ::
  "real \<Rightarrow> nat \<Rightarrow> nat \<Rightarrow> nat \<Rightarrow> nat \<Rightarrow> real \<Rightarrow> mat \<Rightarrow> mat \<Rightarrow> mat \<Rightarrow> mat \<Rightarrow> mat \<Rightarrow> mat \<times> mat" where
  "launch_inner thr T K V BT scale q k v g_org dout =
     bwd_inner_chunk thr T K BT q k (chunk_local_cumsum BT g_org) (launch_dA V BT scale v dout)"

definition launch_decay ::
  "real \<Rightarrow> nat \<Rightarrow> nat \<Rightarrow> nat \<Rightarrow> nat \<Rightarrow> nat \<Rightarrow> nat \<Rightarrow> real \<Rightarrow> mat \<Rightarrow> mat \<Rightarrow> mat \<Rightarrow> mat \<Rightarrow> mat option
   \<Rightarrow> mat \<Rightarrow> mat \<times> mat \<times> mat" where
  "launch_decay thr T K V BT BV NV scale q k v g_org h0 dout =
     bwd_decay_global_cumsum thr BT
       (fst (launch_inner thr T K V BT scale q k v g_org dout))
       (launch_dq_inter T K V BT BV NV scale q k v g_org h0 dout)
       (snd (launch_inner thr T K V BT scale q k v g_org dout))
       (launch_dk_inter T K V BT BV NV scale q k v g_org dout)
       q k (chunk_local_cumsum BT g_org)"

text \<open>
  The gate gradient \<^verbatim>\<open>dg\<close> as \<^verbatim>\<open>bwd_decay_global_cumsum\<close> leaves it, before \<open>backward\<close>
  adds the reverse cumulative sum, with the block sizes \<open>backward\<close> chooses.
\<close>

definition kernel_dg ::
  "real \<Rightarrow> nat \<Rightarrow> nat \<Rightarrow> nat \<Rightarrow> real \<Rightarrow> mat \<Rightarrow> mat \<Rightarrow> mat \<Rightarrow> mat \<Rightarrow> mat option \<Rightarrow> mat \<Rightarrow> mat" where
  "kernel_dg thr T K V scale q k v g_org h0 dout =
     snd (snd (launch_decay thr T K V 16 (min (next_power_of_2 V) 64)
                 (cdiv V (min (next_power_of_2 V) 64)) scale q k v g_org h0 dout))"

text \<open>Reading one entry of what \<open>backward\<close> returns; an error has none.\<close>

definition backward_grad_q :: "error + grads \<Rightarrow> nat \<Rightarrow> nat \<Rightarrow> real option" where
  "backward_grad_q r t c = (case r of Inl e \<Rightarrow> None | Inr gr \<Rightarrow> Some (grad_q gr t c))"

definition backward_grad_k :: "error + grads \<Rightarrow> nat \<Rightarrow> nat \<Rightarrow> real option" where
  "backward_grad_k r t c = (case r of Inl e \<Rightarrow> None | Inr gr \<Rightarrow> Some (grad_k gr t c))"

definition backward_grad_g :: "error + grads \<Rightarrow> nat \<Rightarrow> nat \<Rightarrow> real option" where
  "backward_grad_g r t c = (case r of Inl e \<Rightarrow> None | Inr gr \<Rightarrow> Some (grad_g gr t c))"

text \<open>
  The backward pass as autograd runs it after \<^verbatim>\<open>FusedChunkGLAFunction.apply\<close>: on the
  context the forward pass saved, with the gradient \<open>dout\<close> of the output and the gradient
  \<open>dht\<close> of the final state.
\<close>

definition forward_backward ::
  "real \<Rightarrow> nat \<Rightarrow> nat \<Rightarrow> nat \<Rightarrow> mat \<Rightarrow> mat \<Rightarrow> mat \<Rightarrow> mat \<Rightarrow> real \<Rightarrow> mat option \<Rightarrow> bool
   \<Rightarrow> mat \<Rightarrow> mat option \<Rightarrow> error + grads" where
  "forward_backward thr T K V q k v g scale initial_state output_final_state dout dht =
     (case forward thr T K V q k v g scale initial_state output_final_state of
        Inl e \<Rightarrow> Inl e
      | Inr (out, final_state, ctx) \<Rightarrow> backward thr T K V ctx dout dht)"

section \<open>The backward pass in the words of the specification\<close>

text \<open>
  The state gradient \<open>dS\<close>: "initialized from an externally supplied final-state gradient
  if present, else zero", and updated, one chunk after the other in decreasing time order,
  by \<open>dS \<leftarrow> dS \<cdot> exp(chunk-total decay) + query\<^sup>T @ dO_block\<close>. \<open>state_gradient \<dots> n\<close> is \<open>dS\<close>
  after \<open>n\<close> of the \<open>NT\<close> chunks, on entry to chunk \<open>NT - 1 - n\<close>.
\<close>

definition state_gradient_init :: "mat option \<Rightarrow> mat" where
  "state_gradient_init dht = (case dht of None \<Rightarrow> (\<lambda>c j. 0) | Some x \<Rightarrow> x)"

fun state_gradient :: "nat \<Rightarrow> nat \<Rightarrow> mat \<Rightarrow> mat \<Rightarrow> mat \<Rightarrow> mat option \<Rightarrow> nat \<Rightarrow> mat" where
  "state_gradient BT NT qd g dout dht 0 = state_gradient_init dht"
| "state_gradient BT NT qd g dout dht (Suc n) =
     (\<lambda>c j. state_gradient BT NT qd g dout dht n c j
               * exp (chunk_total_decay BT g (NT - 1 - n) c)
             + (\<Sum>r<BT. qd ((NT - 1 - n) * BT + r) c * dout ((NT - 1 - n) * BT + r) j))"

text \<open>
  The contributions of a chunk: \<open>dK = (dS @ value\<^sup>T)\<^sup>T\<close> and \<open>dV = key @ dS\<close>, at row \<open>t\<close>.
\<close>

definition state_gradient_dk :: "nat \<Rightarrow> mat \<Rightarrow> mat \<Rightarrow> mat" where
  "state_gradient_dk V dS v t c = (\<Sum>j<V. dS c j * v t j)"

definition state_gradient_dv :: "nat \<Rightarrow> mat \<Rightarrow> mat \<Rightarrow> mat" where
  "state_gradient_dv K dS kd t j = (\<Sum>c<K. kd t c * dS c j)"

text \<open>
  The reverse-exclusive cumulative sum "per chunk" of the specification:
  \<open>rev[t] = \<Sum> dg[t']\<close> for \<open>t'\<close> from \<open>t + 1\<close> to the end of the chunk of \<open>t\<close>.
\<close>

definition rev_exclusive_in_chunk :: "nat \<Rightarrow> mat \<Rightarrow> mat" where
  "rev_exclusive_in_chunk BT x t c = (\<Sum>s = t + 1..<(t div BT) * BT + BT. x s c)"

text \<open>
  The per-position term of the gate gradient, \<^verbatim>\<open>b_dq * b_q - b_dk * b_k\<close>, of the
  gradients \<open>backward\<close> returns.
\<close>

definition gate_term :: "grads \<Rightarrow> mat \<Rightarrow> mat \<Rightarrow> mat" where
  "gate_term gr q k s c = grad_q gr s c * q s c - grad_k gr s c * k s c"

section \<open>Lemmas\<close>

lemma recurrence_unroll:
  "recurrence_state g k v S0 (a + m) c j =
     recurrence_state g k v S0 a c j * exp (\<Sum>s = a..<a + m. g s c)
     + (\<Sum>r<m. k (a + r) c * exp (\<Sum>s = a + r + 1..<a + m. g s c) * v (a + r) j)"
proof (induction m)
  case 0
  show ?case by simp
next
  case (Suc m)
  have "(\<Sum>r<m. k (a + r) c * exp (\<Sum>s = a + r + 1..<a + m. g s c) * v (a + r) j) * exp (g (a + m) c)
      = (\<Sum>r<m. k (a + r) c * exp (\<Sum>s = a + r + 1..<a + Suc m. g s c) * v (a + r) j)"
    unfolding sum_distrib_right
    by (rule sum.cong) (auto simp: exp_add algebra_simps)
  then show ?case
    using Suc by (simp add: exp_add algebra_simps)
qed

lemma chunk_row_div: "r < BT \<Longrightarrow> (i * BT + r) div BT = (i::nat)"
  by simp

lemma chunk_local_cumsum_row:
  "r < BT \<Longrightarrow> chunk_local_cumsum BT g (i * BT + r) c = (\<Sum>s = i * BT..i * BT + r. g s c)"
  by (simp add: chunk_local_cumsum_def)

lemma chunk_local_cumsum_diff:
  assumes "r \<le> r'" "r' < BT"
  shows "chunk_local_cumsum BT g (i * BT + r') c - chunk_local_cumsum BT g (i * BT + r) c
         = (\<Sum>s = i * BT + r + 1..<i * BT + r' + 1. g s c)"
proof -
  have r: "r < BT" using assms by simp
  have "{i * BT..i * BT + r'} = {i * BT..i * BT + r} \<union> {i * BT + r + 1..<i * BT + r' + 1}"
    using assms by auto
  moreover have "{i * BT..i * BT + r} \<inter> {i * BT + r + 1..<i * BT + r' + 1} = {}" by auto
  ultimately have "(\<Sum>s = i * BT..i * BT + r'. g s c)
     = (\<Sum>s = i * BT..i * BT + r. g s c) + (\<Sum>s = i * BT + r + 1..<i * BT + r' + 1. g s c)"
    by (simp add: sum.union_disjoint)
  then show ?thesis
    using assms r by (simp add: chunk_local_cumsum_row)
qed

lemma sum_key_blocks:
  fixes K NK BK :: nat
  assumes "K \<le> NK * BK" "\<And>c. K \<le> c \<Longrightarrow> f c = (0::real)"
  shows "(\<Sum>i_k<NK. \<Sum>c = i_k * BK..<i_k * BK + BK. f c) = (\<Sum>c<K. f c)"
proof -
  have "(\<Sum>i_k<NK. \<Sum>c = i_k * BK..<i_k * BK + BK. f c) = sum f {..<NK * BK}"
    by (rule sum.nat_group)
  also have "\<dots> = sum f {..<K}"
    by (rule sum.mono_neutral_right) (use assms in auto)
  finally show ?thesis .
qed

lemma cdiv_covers: "0 < (BK::nat) \<Longrightarrow> K \<le> cdiv K BK * BK"
proof -
  assume b: "0 < BK"
  have "K + BK - 1 < ((K + BK - 1) div BK) * BK + BK"
    using b by (metis add.commute dividend_less_div_times)
  then show ?thesis using b by (simp add: cdiv_def)
qed

lemma fwd_state_eq_recurrence:
  assumes bt: "0 < BT" and i: "i * BT \<le> T" and c: "c < K" and j: "j < V"
  shows "fused_chunk_gla_fwd_state T K V BT
           (snd (prepare_qg_kg scale BT q k (chunk_local_cumsum BT g))) v
           (chunk_local_cumsum BT g) h0 i c j
         = recurrence_state g k v (initial_or_zero h0) (i * BT) c j"
  using i
proof (induction i)
  case 0
  show ?case using c j by (simp add: initial_or_zero_def load_def split: option.splits)
next
  case (Suc i)
  let ?gc = "chunk_local_cumsum BT g"
  let ?a = "i * BT"
  have le: "?a + BT \<le> T" using Suc.prems by (simp add: algebra_simps)
  have ih: "fused_chunk_gla_fwd_state T K V BT
           (snd (prepare_qg_kg scale BT q k ?gc)) v ?gc h0 i c j
         = recurrence_state g k v (initial_or_zero h0) ?a c j"
    using Suc.IH le by simp
  have last: "?gc (?a + BT - 1) c = (\<Sum>s = ?a..<?a + BT. g s c)"
  proof -
    have "?gc (?a + (BT - 1)) c = (\<Sum>s = ?a..?a + (BT - 1). g s c)"
      using bt by (intro chunk_local_cumsum_row) simp
    moreover have "{?a..?a + (BT - 1)} = {?a..<?a + BT}" using bt by auto
    ultimately show ?thesis using bt by simp
  qed
  have row: "load T K (snd (prepare_qg_kg scale BT q k ?gc)) (?a + r) c * load T V v (?a + r) j
           = k (?a + r) c * exp (\<Sum>s = ?a + r + 1..<?a + BT. g s c) * v (?a + r) j"
    if r: "r < BT" for r
  proof -
    have d: "?gc (?a + (BT - 1)) c - ?gc (?a + r) c = (\<Sum>s = ?a + r + 1..<?a + (BT - 1) + 1. g s c)"
      using r bt by (intro chunk_local_cumsum_diff) auto
    have "?a + r < T" using r le by simp
    then show ?thesis
      using r c j d bt by (simp add: load_def prepare_qg_kg_def)
  qed
  have "fused_chunk_gla_fwd_state T K V BT
           (snd (prepare_qg_kg scale BT q k ?gc)) v ?gc h0 (Suc i) c j
        = recurrence_state g k v (initial_or_zero h0) ?a c j * exp (\<Sum>s = ?a..<?a + BT. g s c)
          + (\<Sum>r<BT. k (?a + r) c * exp (\<Sum>s = ?a + r + 1..<?a + BT. g s c) * v (?a + r) j)"
    using c ih last row by simp
  also have "\<dots> = recurrence_state g k v (initial_or_zero h0) (?a + BT) c j"
    by (rule recurrence_unroll [symmetric])
  finally show ?case by (simp add: add.commute)
qed

lemma inter_chunk_sum:
  assumes bt: "0 < BT" and t: "t < T" and nk: "K \<le> NK * BK" and d: "d < V"
  shows "(\<Sum>i_k<NK. fused_chunk_gla_fwd_kernel T K V BT BK
            (fst (prepare_qg_kg scale BT q k (chunk_local_cumsum BT g)))
            (snd (prepare_qg_kg scale BT q k (chunk_local_cumsum BT g))) v
            (chunk_local_cumsum BT g) h0 i_k t d)
         = (\<Sum>c<K. q t c * (exp (chunk_local_cumsum BT g t c) * scale)
                    * recurrence_state g k v (initial_or_zero h0) ((t div BT) * BT) c d)"
proof -
  let ?gc = "chunk_local_cumsum BT g"
  let ?qg = "fst (prepare_qg_kg scale BT q k ?gc)"
  let ?kg = "snd (prepare_qg_kg scale BT q k ?gc)"
  let ?f = "\<lambda>c. load T K ?qg t c * fused_chunk_gla_fwd_state T K V BT ?kg v ?gc h0 (t div BT) c d"
  have "(\<Sum>i_k<NK. fused_chunk_gla_fwd_kernel T K V BT BK ?qg ?kg v ?gc h0 i_k t d)
        = (\<Sum>i_k<NK. \<Sum>c = i_k * BK..<i_k * BK + BK. ?f c)"
    by (simp add: fused_chunk_gla_fwd_kernel_def)
  also have "\<dots> = (\<Sum>c<K. ?f c)"
    by (rule sum_key_blocks [OF nk]) (simp add: load_def)
  also have "\<dots> = (\<Sum>c<K. q t c * (exp (?gc t c) * scale)
                    * recurrence_state g k v (initial_or_zero h0) ((t div BT) * BT) c d)"
  proof (rule sum.cong [OF refl])
    fix c assume "c \<in> {..<K}"
    then have c: "c < K" by simp
    have "(t div BT) * BT \<le> T" using t by (meson div_times_less_eq_dividend le_trans less_imp_le)
    then have "fused_chunk_gla_fwd_state T K V BT ?kg v ?gc h0 (t div BT) c d
               = recurrence_state g k v (initial_or_zero h0) ((t div BT) * BT) c d"
      using bt c d by (intro fwd_state_eq_recurrence)
    then show "?f c = q t c * (exp (?gc t c) * scale)
                    * recurrence_state g k v (initial_or_zero h0) ((t div BT) * BT) c d"
      using t c by (simp add: load_def prepare_qg_kg_def)
  qed
  finally show ?thesis .
qed

lemma intra_chunk_scores:
  assumes bt: "0 < BT" and t: "t < T" and nk: "K \<le> NK * BK" and j: "j \<le> t mod BT"
  shows "(\<Sum>i_k<NK. fwd_inner_chunk thr T K BT BK q k gc scale i_k t j)
         = (\<Sum>c<K. q t c * scale * k ((t div BT) * BT + j) c
                    * safe_exp thr (gc t c - gc ((t div BT) * BT + j) c))"
proof -
  let ?f = "\<lambda>c. (if c < K then q t c else 0) * scale
           * load T K k ((t div BT) * BT + j) c
           * safe_exp thr ((if c < K then gc t c else 0) - load T K gc ((t div BT) * BT + j) c)"
  have row: "(t div BT) * BT + j < T"
  proof -
    have "(t div BT) * BT + t mod BT = t" by (rule div_mult_mod_eq)
    then show ?thesis using j t by linarith
  qed
  have "(\<Sum>i_k<NK. fwd_inner_chunk thr T K BT BK q k gc scale i_k t j)
        = (\<Sum>i_k<NK. \<Sum>c = i_k * BK..<i_k * BK + BK. ?f c)"
    using j by (simp add: fwd_inner_chunk_def)
  also have "\<dots> = (\<Sum>c<K. ?f c)"
    by (rule sum_key_blocks [OF nk]) simp
  also have "\<dots> = (\<Sum>c<K. q t c * scale * k ((t div BT) * BT + j) c
                    * safe_exp thr (gc t c - gc ((t div BT) * BT + j) c))"
    by (rule sum.cong [OF refl]) (use row in \<open>simp add: load_def\<close>)
  finally show ?thesis .
qed

lemma intra_chunk_scores_masked:
  assumes "\<not> j \<le> t mod BT"
  shows "(\<Sum>i_k<NK. fwd_inner_chunk thr T K BT BK q k gc scale i_k t j) = 0"
  using assms by (simp add: fwd_inner_chunk_def)

lemma recurrence_algebra:
  fixes Ra E :: "nat \<Rightarrow> real" and qt :: "nat \<Rightarrow> real" and W :: "nat \<Rightarrow> nat \<Rightarrow> real" and vv :: "nat \<Rightarrow> real"
  shows "(\<Sum>c<K. qt c * (E c * scale) * Ra c) + (\<Sum>j<n. (\<Sum>c<K. qt c * scale * W j c) * vv j)
         = scale * (\<Sum>c<K. qt c * (Ra c * E c + (\<Sum>j<n. W j c * vv j)))"
proof -
  have "(\<Sum>j<n. (\<Sum>c<K. qt c * scale * W j c) * vv j)
        = (\<Sum>j<n. \<Sum>c<K. qt c * scale * W j c * vv j)"
    by (simp add: sum_distrib_right)
  also have "\<dots> = (\<Sum>c<K. \<Sum>j<n. qt c * scale * W j c * vv j)"
    by (rule sum.swap)
  also have "\<dots> = (\<Sum>c<K. scale * (qt c * (\<Sum>j<n. W j c * vv j)))"
  proof (rule sum.cong [OF refl])
    fix c
    have "scale * (qt c * (\<Sum>j<n. W j c * vv j)) = (\<Sum>j<n. scale * (qt c * (W j c * vv j)))"
      by (simp only: sum_distrib_left)
    also have "\<dots> = (\<Sum>j<n. qt c * scale * W j c * vv j)"
      by (rule sum.cong [OF refl]) simp
    finally show "(\<Sum>j<n. qt c * scale * W j c * vv j) = scale * (qt c * (\<Sum>j<n. W j c * vv j))"
      by simp
  qed
  finally have 1: "(\<Sum>j<n. (\<Sum>c<K. qt c * scale * W j c) * vv j)
        = (\<Sum>c<K. scale * (qt c * (\<Sum>j<n. W j c * vv j)))" .
  have 2: "(\<Sum>c<K. qt c * (E c * scale) * Ra c) = (\<Sum>c<K. scale * (qt c * (Ra c * E c)))"
    by (rule sum.cong [OF refl]) simp
  define S where "S = (\<lambda>c. \<Sum>j<n. W j c * vv j)"
  have "scale * (\<Sum>c<K. qt c * (Ra c * E c + S c))
        = (\<Sum>c<K. scale * (qt c * (Ra c * E c)) + scale * (qt c * S c))"
    by (simp add: sum_distrib_left distrib_left)
  also have "\<dots> = (\<Sum>c<K. scale * (qt c * (Ra c * E c))) + (\<Sum>c<K. scale * (qt c * S c))"
    by (rule sum.distrib)
  finally show ?thesis
    unfolding 1 2 S_def by simp
qed

lemma chunked_output_eq_recurrence:
  assumes bt: "0 < BT" and t: "t < T" and nk: "K \<le> NK * BK" and d: "d < V"
    and nc: "\<And>j c. j \<le> t mod BT \<Longrightarrow> c < K \<Longrightarrow>
               thr \<le> chunk_local_cumsum BT g t c
                      - chunk_local_cumsum BT g ((t div BT) * BT + j) c"
  shows "(\<Sum>i_k<NK. fused_chunk_gla_fwd_kernel T K V BT BK
            (fst (prepare_qg_kg scale BT q k (chunk_local_cumsum BT g)))
            (snd (prepare_qg_kg scale BT q k (chunk_local_cumsum BT g))) v
            (chunk_local_cumsum BT g) h0 i_k t d)
         + (\<Sum>j<BT. (\<Sum>i_k<NK. fwd_inner_chunk thr T K BT BK q k (chunk_local_cumsum BT g) scale i_k t j)
                    * v ((t div BT) * BT + j) d)
         = scale * (\<Sum>c<K. q t c * recurrence_state g k v (initial_or_zero h0) (Suc t) c d)"
proof -
  define i where "i = t div BT"
  define r where "r = t mod BT"
  define a where "a = i * BT"
  let ?gc = "chunk_local_cumsum BT g"
  let ?R = "recurrence_state g k v (initial_or_zero h0)"
  have t_eq: "t = a + r" by (simp add: a_def i_def r_def)
  have r: "r < BT" using bt by (simp add: r_def)
  have gct: "?gc t c = (\<Sum>s = a..<a + Suc r. g s c)" for c
  proof -
    have "?gc (i * BT + r) c = (\<Sum>s = i * BT..i * BT + r. g s c)"
      using r by (rule chunk_local_cumsum_row)
    moreover have "{a..a + r} = {a..<a + Suc r}" by auto
    ultimately show ?thesis by (simp add: t_eq a_def)
  qed
  have gcd: "?gc t c - ?gc (a + j) c = (\<Sum>s = a + j + 1..<a + Suc r. g s c)" if "j \<le> r" for j c
    using chunk_local_cumsum_diff [OF that r, of g i c] by (simp add: t_eq a_def)
  define W where "W = (\<lambda>j c. k (a + j) c * exp (\<Sum>s = a + j + 1..<a + Suc r. g s c))"
  have inter: "(\<Sum>i_k<NK. fused_chunk_gla_fwd_kernel T K V BT BK
            (fst (prepare_qg_kg scale BT q k ?gc)) (snd (prepare_qg_kg scale BT q k ?gc)) v ?gc h0 i_k t d)
         = (\<Sum>c<K. q t c * (exp (\<Sum>s = a..<a + Suc r. g s c) * scale) * ?R a c d)"
    using inter_chunk_sum [OF bt t nk d, where scale = scale and q = q and k = k and g = g
        and v = v and ?h0.0 = h0]
    by (simp add: gct a_def i_def)
  have score: "(\<Sum>i_k<NK. fwd_inner_chunk thr T K BT BK q k ?gc scale i_k t j)
               = (\<Sum>c<K. q t c * scale * W j c)" if j: "j \<le> r" for j
  proof -
    have "(\<Sum>i_k<NK. fwd_inner_chunk thr T K BT BK q k ?gc scale i_k t j)
          = (\<Sum>c<K. q t c * scale * k (a + j) c * safe_exp thr (?gc t c - ?gc (a + j) c))"
      using intra_chunk_scores [OF bt t nk, where j = j and thr = thr and q = q and k = k
          and gc = ?gc and scale = scale] j
      by (simp add: r_def a_def i_def)
    also have "\<dots> = (\<Sum>c<K. q t c * scale * W j c)"
    proof (rule sum.cong [OF refl])
      fix c assume "c \<in> {..<K}"
      then have c: "c < K" by simp
      have "thr \<le> ?gc t c - ?gc (a + j) c"
        using nc [of j c] j c by (simp add: r_def a_def i_def)
      then have "safe_exp thr (?gc t c - ?gc (a + j) c) = exp (?gc t c - ?gc (a + j) c)"
        by (simp add: safe_exp_def)
      then show "q t c * scale * k (a + j) c * safe_exp thr (?gc t c - ?gc (a + j) c)
                 = q t c * scale * W j c"
        using gcd [OF j, of c] by (simp add: W_def)
    qed
    finally show ?thesis .
  qed
  have intra: "(\<Sum>j<BT. (\<Sum>i_k<NK. fwd_inner_chunk thr T K BT BK q k ?gc scale i_k t j)
                    * v ((t div BT) * BT + j) d)
               = (\<Sum>j<Suc r. (\<Sum>c<K. q t c * scale * W j c) * v (a + j) d)"
  proof -
    have "(\<Sum>j<BT. (\<Sum>i_k<NK. fwd_inner_chunk thr T K BT BK q k ?gc scale i_k t j) * v (a + j) d)
          = (\<Sum>j<Suc r. (\<Sum>i_k<NK. fwd_inner_chunk thr T K BT BK q k ?gc scale i_k t j) * v (a + j) d)"
    proof (rule sum.mono_neutral_right)
      show "finite {..<BT}" by simp
      show "{..<Suc r} \<subseteq> {..<BT}" using r by auto
      show "\<forall>j\<in>{..<BT} - {..<Suc r}.
              (\<Sum>i_k<NK. fwd_inner_chunk thr T K BT BK q k ?gc scale i_k t j) * v (a + j) d = 0"
      proof
        fix j assume "j \<in> {..<BT} - {..<Suc r}"
        then have "\<not> j \<le> t mod BT" by (simp add: r_def)
        then show "(\<Sum>i_k<NK. fwd_inner_chunk thr T K BT BK q k ?gc scale i_k t j) * v (a + j) d = 0"
          by (simp add: intra_chunk_scores_masked)
      qed
    qed
    also have "\<dots> = (\<Sum>j<Suc r. (\<Sum>c<K. q t c * scale * W j c) * v (a + j) d)"
      by (rule sum.cong [OF refl]) (simp add: score)
    finally show ?thesis by (simp add: a_def i_def)
  qed
  have unroll: "?R (Suc t) c d
        = ?R a c d * exp (\<Sum>s = a..<a + Suc r. g s c) + (\<Sum>j<Suc r. W j c * v (a + j) d)" for c
    using recurrence_unroll [of g k v "initial_or_zero h0" a "Suc r" c d]
    by (simp add: t_eq W_def)
  show ?thesis
    unfolding inter intra unroll
    by (rule recurrence_algebra)
qed

section \<open>The wrapper and the sequential recurrence\<close>

lemma whole_chunks:
  assumes "0 < T" "16 dvd T"
  shows "T div 16 \<noteq> 0 \<and> T mod (T div 16) = 0 \<and> T div (T div 16) = (16::nat)"
proof -
  obtain n where n: "T = 16 * n" using assms(2) by (auto simp: dvd_def)
  then have "0 < n" using assms(1) by simp
  then show ?thesis by (simp add: n)
qed

lemma whole_chunks_only:
  assumes "T div 16 \<noteq> 0" "T mod (T div 16) = 0" "T div (T div 16) = (16::nat)"
  shows "0 < T \<and> 16 dvd T"
proof -
  have "T div 16 dvd T" using assms(2) by (simp add: dvd_eq_mod_eq_0)
  then have "T = T div (T div 16) * (T div 16)" by simp
  then have "T = 16 * (T div 16)" using assms(3) by simp
  then show ?thesis using assms(1) by (metis dvd_triv_left gr0I div_0)
qed

lemma forward_eq:
  assumes "0 < K" "0 < V" "0 < T" "16 dvd T"
  shows "forward thr T K V q k v g scale h0 ofs =
     Inr (\<lambda>t d. launch_inter_output T K V 16 (min K 64) (cdiv K (min K 64)) scale q k v g h0 t d
                + (\<Sum>j<16. launch_scores thr T K 16 (min K 64) (cdiv K (min K 64)) scale q k g t j
                             * v ((t div 16) * 16 + j) d),
          if ofs then Some (launch_state T K V 16 scale q k v g h0 (cdiv T 16)) else None,
          \<lparr>saved_q = q, saved_k = k, saved_v = v, saved_g_org = g,
           saved_A = launch_scores thr T K 16 (min K 64) (cdiv K (min K 64)) scale q k g,
           saved_initial_state = h0, ctx_scale = scale\<rparr>)"
  using assms(1,2) whole_chunks [OF assms(3,4)]
  by (simp add: forward_def Let_def split_def launch_inter_output_def launch_scores_def
      launch_state_def fused_chunk_gla_fwd_final_def fun_eq_iff)

lemma forward_shape_error:
  assumes "0 < K" "0 < V" "\<not> (0 < T \<and> 16 dvd T)"
  shows "forward thr T K V q k v g scale h0 ofs = Inl EinopsError
       \<or> forward thr T K V q k v g scale h0 ofs = Inl RuntimeError"
proof -
  have "\<not> (T div 16 \<noteq> 0 \<and> T mod (T div 16) = 0 \<and> T div (T div 16) = 16)"
  proof
    assume a: "T div 16 \<noteq> 0 \<and> T mod (T div 16) = 0 \<and> T div (T div 16) = 16"
    have "0 < T \<and> 16 dvd T"
      by (rule whole_chunks_only) (use a in simp_all)
    then show False using assms(3) by simp
  qed
  then show ?thesis
    using assms(1,2) by (auto simp: forward_def Let_def split_def)
qed

lemma key_blocks_cover: "0 < K \<Longrightarrow> K \<le> cdiv K (min K 64) * min K 64"
  by (rule cdiv_covers) simp

lemma neg_div_16: "(- (a::int)) div 16 = - ((a + 15) div 16)"
proof -
  define q where "q = (a + 15) div 16"
  define r where "r = (a + 15) mod 16"
  have e: "a + 15 = 16 * q + r" by (simp add: q_def r_def)
  have r: "0 \<le> r" "r < 16" by (simp_all add: r_def)
  have "- a = 16 * (- q) + (15 - r)" using e by simp
  then have "(- a) div 16 = - q"
    using r by (intro int_div_pos_eq [where r = "15 - r"]) auto
  then show ?thesis by (simp add: q_def)
qed

lemma ceildiv_16: "ceildiv T 16 = (T + 15) div 16"
proof -
  have "int T div (- 16) = (- int T) div 16" by (rule div_minus_right)
  then have "- (int T div (- 16)) = (int T + 15) div 16" by (simp add: neg_div_16)
  also have "\<dots> = int ((T + 15) div 16)" by (simp add: zdiv_int)
  finally show ?thesis by (simp add: ceildiv_def)
qed

lemma padded_len: "(T::nat) \<le> (T + 15) div 16 * 16"
proof -
  have "(T + 15) div 16 * 16 + (T + 15) mod 16 = T + 15" by (rule div_mult_mod_eq)
  moreover have "(T + 15) mod 16 < 16" by simp
  ultimately show ?thesis by linarith
qed

lemma padded_whole: "0 < T \<Longrightarrow> 0 < (T + 15) div 16 * 16 \<and> 16 dvd (T + 15) div 16 * (16::nat)"
  using padded_len [of T] by simp

lemma pad_eq: "pad 16 T x = ((T + 15) div 16 * 16, \<lambda>t c. if t < T then x t c else 0)"
  by (simp add: pad_def ceildiv_16)

lemma cdiv_mult_16: "cdiv (n * 16) 16 = n"
  by (simp add: cdiv_def)

lemma recurrence_state_cong:
  assumes "\<And>s. s < t \<Longrightarrow> g s c = g' s c \<and> k s c = k' s c \<and> v s j = v' s j"
  shows "recurrence_state g k v S0 t c j = recurrence_state g' k' v' S0 t c j"
  using assms by (induction t) simp_all

lemma recurrence_state_padding:
  assumes "\<And>s. T \<le> s \<Longrightarrow> g s c = 0 \<and> k s c = 0"
  shows "recurrence_state g k v S0 (T + m) c j = recurrence_state g k v S0 T c j"
  using assms by (induction m) simp_all

lemma chunk_local_cumsum_cong:
  assumes "\<And>s. s \<le> t \<Longrightarrow> g s c = g' s c"
  shows "chunk_local_cumsum BT g t c = chunk_local_cumsum BT g' t c"
  unfolding chunk_local_cumsum_def
  by (rule sum.cong [OF refl]) (simp add: assms)

lemma fused_chunk_gla_eq:
  assumes "0 < K" "0 < V"
  shows "fused_chunk_gla thr T K V q k v g scale h0 ofs =
     (case forward thr ((T + 15) div 16 * 16) K V
             (\<lambda>t c. if t < T then q t c else 0) (\<lambda>t c. if t < T then k t c else 0)
             (\<lambda>t c. if t < T then v t c else 0) (\<lambda>t c. if t < T then g t c else 0)
             (if scale = - 1 then real K powr (- (1 / 2)) else scale) h0 ofs of
        Inl e \<Rightarrow> Inl e
      | Inr (out, final_state, _) \<Rightarrow>
          Inr (\<lambda>t d. if t < T then out t d else 0, final_state))"
  by (simp add: fused_chunk_gla_def pad_eq Let_def)

lemma fused_chunk_gla_output:
  assumes K: "0 < K" and V: "0 < V" and t: "t < T" and d: "d < V"
    and nc: "no_clamp thr T K 16 g"
  shows "result_output (fused_chunk_gla thr T K V q k v g scale h0 ofs) t d
         = Some (recurrence_output K (if scale = - 1 then real K powr (- (1 / 2)) else scale)
                   q g k v (initial_or_zero h0) t d)"
proof -
  define T' where "T' = (T + 15) div 16 * 16"
  define q' where "q' = (\<lambda>t c. if t < T then q t c else 0)"
  define k' where "k' = (\<lambda>t c. if t < T then k t c else 0)"
  define v' where "v' = (\<lambda>t c. if t < T then v t c else 0)"
  define g' where "g' = (\<lambda>t c. if t < T then g t c else 0)"
  define sc where "sc = (if scale = - 1 then real K powr (- (1 / 2)) else scale)"
  define BK where "BK = min K 64"
  define NK where "NK = cdiv K BK"
  have tT': "t < T'" using t padded_len [of T] by (simp add: T'_def)
  have nk: "K \<le> NK * BK" using key_blocks_cover [OF K] by (simp add: NK_def BK_def)
  have gc: "chunk_local_cumsum 16 g' s c = chunk_local_cumsum 16 g s c" if "s \<le> t" for s c
    by (rule chunk_local_cumsum_cong) (use that t in \<open>simp add: g'_def\<close>)
  have le: "(t div 16) * 16 + j \<le> t" if "j \<le> t mod 16" for j
  proof -
    have "(t div 16) * 16 + t mod 16 = t" by (rule div_mult_mod_eq)
    then show ?thesis using that by linarith
  qed
  have nc': "thr \<le> chunk_local_cumsum 16 g' t c - chunk_local_cumsum 16 g' ((t div 16) * 16 + j) c"
    if "j \<le> t mod 16" "c < K" for j c
    using nc t that le [OF that(1)] by (simp add: gc no_clamp_def)
  have "launch_inter_output T' K V 16 BK NK sc q' k' v' g' h0 t d
        + (\<Sum>j<16. launch_scores thr T' K 16 BK NK sc q' k' g' t j * v' ((t div 16) * 16 + j) d)
        = sc * (\<Sum>c<K. q' t c * recurrence_state g' k' v' (initial_or_zero h0) (Suc t) c d)"
    unfolding launch_inter_output_def launch_scores_def
    by (rule chunked_output_eq_recurrence [OF _ tT' nk d nc']) simp_all
  also have "\<dots> = sc * (\<Sum>c<K. q t c * recurrence_state g k v (initial_or_zero h0) (Suc t) c d)"
  proof -
    have "recurrence_state g' k' v' (initial_or_zero h0) (Suc t) c d
          = recurrence_state g k v (initial_or_zero h0) (Suc t) c d" for c
      by (rule recurrence_state_cong) (use t in \<open>simp add: g'_def k'_def v'_def\<close>)
    then show ?thesis using t by (simp add: q'_def)
  qed
  finally have main: "launch_inter_output T' K V 16 BK NK sc q' k' v' g' h0 t d
        + (\<Sum>j<16. launch_scores thr T' K 16 BK NK sc q' k' g' t j * v' ((t div 16) * 16 + j) d)
        = recurrence_output K sc q g k v (initial_or_zero h0) t d"
    by (simp add: recurrence_output_def)
  have T0: "0 < T" using t by simp
  have whole: "0 < T'" "16 dvd T'" using padded_whole [OF T0] by (simp_all add: T'_def)
  show ?thesis
    using main t
    by (simp add: fused_chunk_gla_eq [OF K V] forward_eq [OF K V whole [unfolded T'_def]]
        result_output_def T'_def q'_def k'_def v'_def g'_def sc_def BK_def NK_def)
qed

lemma fused_chunk_gla_final_state:
  assumes K: "0 < K" and V: "0 < V" and T0: "0 < T" and c: "c < K" and d: "d < V"
  shows "result_final_state (fused_chunk_gla thr T K V q k v g scale h0 True) c d
         = Some (recurrence_state g k v (initial_or_zero h0) T c d)"
proof -
  define T' where "T' = (T + 15) div 16 * 16"
  define q' where "q' = (\<lambda>t c. if t < T then q t c else 0)"
  define k' where "k' = (\<lambda>t c. if t < T then k t c else 0)"
  define v' where "v' = (\<lambda>t c. if t < T then v t c else 0)"
  define g' where "g' = (\<lambda>t c. if t < T then g t c else 0)"
  define sc where "sc = (if scale = - 1 then real K powr (- (1 / 2)) else scale)"
  have TT': "T \<le> T'" using padded_len [of T] by (simp add: T'_def)
  have cd: "cdiv T' 16 * 16 = T'" by (simp add: T'_def cdiv_mult_16)
  have "launch_state T' K V 16 sc q' k' v' g' h0 (cdiv T' 16) c d
        = recurrence_state g' k' v' (initial_or_zero h0) (cdiv T' 16 * 16) c d"
    unfolding launch_state_def
    by (rule fwd_state_eq_recurrence) (use c d cd in simp_all)
  also have "\<dots> = recurrence_state g' k' v' (initial_or_zero h0) (T + (T' - T)) c d"
    using TT' cd by simp
  also have "\<dots> = recurrence_state g' k' v' (initial_or_zero h0) T c d"
    by (rule recurrence_state_padding) (simp add: g'_def k'_def)
  also have "\<dots> = recurrence_state g k v (initial_or_zero h0) T c d"
    by (rule recurrence_state_cong) (simp add: g'_def k'_def v'_def)
  finally have main: "launch_state T' K V 16 sc q' k' v' g' h0 (cdiv T' 16) c d
        = recurrence_state g k v (initial_or_zero h0) T c d" .
  have whole: "0 < T'" "16 dvd T'" using padded_whole [OF T0] by (simp_all add: T'_def)
  show ?thesis
    using main
    by (simp add: fused_chunk_gla_eq [OF K V] forward_eq [OF K V whole [unfolded T'_def]]
        result_final_state_def T'_def q'_def k'_def v'_def g'_def sc_def)
qed

lemma chunk_local_cumsum_last:
  assumes "0 < BT"
  shows "chunk_local_cumsum BT g (i * BT + BT - 1) c = chunk_total_decay BT g i c"
proof -
  have "chunk_local_cumsum BT g (i * BT + (BT - 1)) c = (\<Sum>s = i * BT..i * BT + (BT - 1). g s c)"
    using assms by (intro chunk_local_cumsum_row) simp
  moreover have "{i * BT..i * BT + (BT - 1)} = {i * BT..<i * BT + BT}" using assms by auto
  ultimately show ?thesis using assms by (simp add: chunk_total_decay_def)
qed

lemma prepared_key_row:
  assumes "0 < BT" "r < BT"
  shows "snd (prepare_qg_kg scale BT q k (chunk_local_cumsum BT g)) (i * BT + r) c
         = decay_scaled_key BT k g (i * BT + r) c"
  using assms chunk_local_cumsum_last [OF assms(1), of g i c]
  by (simp add: prepare_qg_kg_def decay_scaled_key_def)

lemma recurrence_zero_gate:
  "recurrence_state zeros k v S0 t = linear_attention_state k v S0 t"
  by (induction t) (simp_all add: zeros_def)

lemma no_clamp_zeros: "thr \<le> 0 \<Longrightarrow> no_clamp thr T K BT zeros"
  by (simp add: no_clamp_def chunk_local_cumsum_def zeros_def)

section \<open>Scores, totality and the launch configuration\<close>

lemma launch_scores_eq:
  assumes bt: "0 < BT" and t: "t < T" and nk: "K \<le> NK * BK"
  shows "launch_scores thr T K BT BK NK scale q k g t j
         = causal_scores (safe_exp thr) K BT scale q k g t j"
proof (cases "j \<le> t mod BT")
  case True
  have "launch_scores thr T K BT BK NK scale q k g t j
        = (\<Sum>c<K. q t c * scale * k ((t div BT) * BT + j) c
                    * safe_exp thr (chunk_local_cumsum BT g t c
                                    - chunk_local_cumsum BT g ((t div BT) * BT + j) c))"
    unfolding launch_scores_def by (rule intra_chunk_scores [OF bt t nk True])
  also have "\<dots> = causal_scores (safe_exp thr) K BT scale q k g t j"
    using True by (simp add: causal_scores_def sum_distrib_left mult_ac)
  finally show ?thesis .
next
  case False
  then show ?thesis
    by (simp add: launch_scores_def causal_scores_def intra_chunk_scores_masked)
qed


lemma low_gate_cumsum: "t < 16 \<Longrightarrow> chunk_local_cumsum 16 low_gate t c = - 200 * (real t + 1)"
  by (simp add: chunk_local_cumsum_def low_gate_def algebra_simps)



section \<open>The stores of the DPLR state-gradient kernel\<close>

lemma dhu_sub_block_mem:
  "fst (dhu_sub_block T K V BT BC BK qg bg w dout i_t b_dh i_c s)
   = (fst s)\<lparr>mem_dv2 := store T V (i_t * BT + i_c * BC) BC
        (\<lambda>r j. dv2_row T K V BK bg b_dh (mem_dv (fst s)) (i_t * BT + i_c * BC + r) j)
        (mem_dv2 (fst s))\<rparr>"
  by (simp add: dhu_sub_block_def Let_def dv2_row_def)

lemma dhu_sub_loop_frame:
  "mem_dv (fst (dhu_sub_loop T K V BT BC BK qg bg w dout i_t b_dh n s)) = mem_dv (fst s)
   \<and> mem_dh (fst (dhu_sub_loop T K V BT BC BK qg bg w dout i_t b_dh n s)) = mem_dh (fst s)
   \<and> mem_dh0 (fst (dhu_sub_loop T K V BT BC BK qg bg w dout i_t b_dh n s)) = mem_dh0 (fst s)"
  by (induction n arbitrary: s) (simp_all add: dhu_sub_block_mem)



lemma dhu_chunk_frame:
  "mem_dv (fst (dhu_chunk T K V BT BC BK qg bg w gk dout i_t s)) = mem_dv (fst s)
   \<and> mem_dh0 (fst (dhu_chunk T K V BT BC BK qg bg w gk dout i_t s)) = mem_dh0 (fst s)
   \<and> mem_dh (fst (dhu_chunk T K V BT BC BK qg bg w gk dout i_t s))
       = (mem_dh (fst s))(i_t := store K V 0 BK (snd s) (mem_dh (fst s) i_t))"
  by (simp add: dhu_chunk_def Let_def dhu_sub_loop_frame)



lemma dhu_chunk_loop_dh_above:
  "n \<le> i \<Longrightarrow>
   mem_dh (fst (dhu_chunk_loop T K V BT BC BK qg bg w gk dout n s)) i = mem_dh (fst s) i"
  by (induction n arbitrary: s) (simp_all add: dhu_chunk_frame)





lemma dhu_kernel_last_chunk:
  assumes T: "0 < T" and bt: "0 < BT" and K: "K \<le> BK" and c: "c < K" and j: "j < V"
  shows "mem_dh (chunk_dplr_bwd_kernel_dhu T K V BT BC BK qg bg w gk dht dout m)
           (cdiv T BT - 1) c j
         = (case dht of None \<Rightarrow> 0 | Some x \<Rightarrow> x c j)"
proof -
  define b_dh where "b_dh = (\<lambda>c j. case dht of None \<Rightarrow> 0 | Some x \<Rightarrow> 0 + load K V x c j)"
  define n where "n = cdiv T BT - 1"
  have "T \<le> cdiv T BT * BT" by (rule cdiv_covers [OF bt])
  then have "0 < cdiv T BT" using T by (cases "cdiv T BT") simp_all
  then have nt: "cdiv T BT = Suc n" by (simp add: n_def)
  define s where "s = dhu_chunk_loop T K V BT BC BK qg bg w gk dout (Suc n) (m, b_dh)"
  have "mem_dh (fst s) n = store K V 0 BK b_dh (mem_dh m n)"
    by (simp add: s_def dhu_chunk_loop_dh_above dhu_chunk_frame)
  then have dh: "mem_dh (fst s) n c j = (case dht of None \<Rightarrow> 0 | Some x \<Rightarrow> x c j)"
    using K c j by (simp add: store_def b_dh_def load_def split: option.splits)
  have k: "chunk_dplr_bwd_kernel_dhu T K V BT BC BK qg bg w gk dht dout m
           = (case mem_dh0 (fst s) of None \<Rightarrow> fst s
              | Some x \<Rightarrow> (fst s)\<lparr>mem_dh0 := Some (store K V 0 BK (snd s) x)\<rparr>)"
    unfolding chunk_dplr_bwd_kernel_dhu_def Let_def s_def b_dh_def nt by (rule refl)
  have "mem_dh (chunk_dplr_bwd_kernel_dhu T K V BT BC BK qg bg w gk dht dout m)
        = mem_dh (fst s)"
    unfolding k by (cases "mem_dh0 (fst s)") simp_all
  then show ?thesis
    using dh by (simp add: n_def)
qed

lemma next_power_of_2_ge: "0 < K \<Longrightarrow> K \<le> next_power_of_2 K"
proof -
  assume K: "0 < K"
  show ?thesis
  proof (cases "K = 1")
    case True
    then show ?thesis by (simp add: next_power_of_2_def)
  next
    case False
    then have "0 < K - 1" using K by simp
    then have "K - 1 < 2 ^ floorlog 2 (K - 1)"
      using floorlog_bounds [of "K - 1" 2] by simp
    then show ?thesis using K by (simp add: next_power_of_2_def)
  qed
qed



lemma max_pow2: "max ((2::nat) ^ a) (2 ^ b) = 2 ^ max a b"
  by (cases "a \<le> b") (simp_all add: max_def)








section \<open>The backward pass\<close>

lemma bwd_state_transposed:
  "fused_chunk_gla_bwd_state T K V BT k v g h0 i j c
   = fused_chunk_gla_fwd_state T K V BT k v g h0 i c j"
  by (induction i arbitrary: j c) (simp_all add: mult.commute add.commute)

lemma value_blocks_cover:
  "0 < V \<Longrightarrow> V \<le> cdiv V (min (next_power_of_2 V) 64) * min (next_power_of_2 V) 64"
  using next_power_of_2_ge [of V] by (intro cdiv_covers) simp

lemma cdiv_whole: "0 < BT \<Longrightarrow> cdiv (NT * BT) BT = NT"
proof -
  assume b: "0 < BT"
  have "(NT * BT + BT - 1) div BT = NT"
    by (rule div_nat_eqI) (use b in \<open>simp_all add: algebra_simps\<close>)
  then show ?thesis by (simp add: cdiv_def)
qed

lemma chunk_start_le: "(t div BT) * BT \<le> (t::nat)"
  by simp

lemma launch_dq_inter_eq:
  assumes bt: "0 < BT" and t: "t < T" and nv: "V \<le> NV * BV" and c: "c < K"
  shows "launch_dq_inter T K V BT BV NV scale q k v g h0 dout t c
         = scale * (\<Sum>j<V. dout t j
                      * recurrence_state g k v (initial_or_zero h0) ((t div BT) * BT) c j)"
proof -
  let ?gc = "chunk_local_cumsum BT g"
  let ?kg = "snd (prepare_qg_kg scale BT q k ?gc)"
  let ?f = "\<lambda>j. load T V dout t j * fused_chunk_gla_bwd_state T K V BT ?kg v ?gc h0 (t div BT) j c"
  have le: "(t div BT) * BT \<le> T" using t chunk_start_le [of t BT] by linarith
  have "launch_dq_inter T K V BT BV NV scale q k v g h0 dout t c
        = (\<Sum>i_v<NV. \<Sum>j = i_v * BV..<i_v * BV + BV. ?f j) * scale"
    by (simp add: launch_dq_inter_def fused_chunk_gla_bwd_dq_def sum_distrib_right)
  also have "(\<Sum>i_v<NV. \<Sum>j = i_v * BV..<i_v * BV + BV. ?f j) = (\<Sum>j<V. ?f j)"
    by (rule sum_key_blocks [OF nv]) (simp add: load_def)
  also have "(\<Sum>j<V. ?f j)
      = (\<Sum>j<V. dout t j * recurrence_state g k v (initial_or_zero h0) ((t div BT) * BT) c j)"
    by (rule sum.cong [OF refl])
      (use t in \<open>simp add: load_def bwd_state_transposed fwd_state_eq_recurrence [OF bt le c]\<close>)
  finally show ?thesis by (simp add: mult.commute)
qed

lemma launch_dh_eq_state_gradient:
  assumes bt: "0 < BT" and c: "c < K" and j: "j < V"
  shows "n \<le> NT \<Longrightarrow> launch_dh (NT * BT) K V BT scale q k g dout n c j
         = state_gradient BT NT (decay_scaled_query scale BT q g) g dout None n c j"
proof (induction n)
  case 0
  show ?case by (simp add: launch_dh_def state_gradient_init_def)
next
  case (Suc n)
  define i where "i = NT - 1 - n"
  have i: "NT = i + n + 1" using Suc.prems by (simp add: i_def)
  have r1: "NT * BT - (n + 1) * BT = i * BT" by (simp add: i algebra_simps)
  have r2: "NT * BT - n * BT - 1 = i * BT + BT - 1" by (simp add: i algebra_simps)
  have row: "i * BT + r < NT * BT" if "r < BT" for r
    using that by (simp add: i algebra_simps)
  have IH: "launch_dh (NT * BT) K V BT scale q k g dout n c j
         = state_gradient BT NT (decay_scaled_query scale BT q g) g dout None n c j"
    using Suc by simp
  have "launch_dh (NT * BT) K V BT scale q k g dout (Suc n) c j
        = launch_dh (NT * BT) K V BT scale q k g dout n c j
            * exp (chunk_local_cumsum BT g (i * BT + BT - 1) c)
          + (\<Sum>r<BT. load (NT * BT) K
                        (fst (prepare_qg_kg scale BT q k (chunk_local_cumsum BT g))) (i * BT + r) c
                      * load (NT * BT) V dout (i * BT + r) j)"
    unfolding launch_dh_def fused_chunk_gla_bwd_dh.simps r1 r2 using c by simp
  also have "(\<Sum>r<BT. load (NT * BT) K
                        (fst (prepare_qg_kg scale BT q k (chunk_local_cumsum BT g))) (i * BT + r) c
                      * load (NT * BT) V dout (i * BT + r) j)
      = (\<Sum>r<BT. decay_scaled_query scale BT q g (i * BT + r) c * dout (i * BT + r) j)"
    by (rule sum.cong [OF refl])
      (use c j row in \<open>simp add: load_def prepare_qg_kg_def decay_scaled_query_def\<close>)
  finally have "launch_dh (NT * BT) K V BT scale q k g dout (Suc n) c j
        = launch_dh (NT * BT) K V BT scale q k g dout n c j * exp (chunk_total_decay BT g i c)
          + (\<Sum>r<BT. decay_scaled_query scale BT q g (i * BT + r) c * dout (i * BT + r) j)"
    unfolding chunk_local_cumsum_last [OF bt] .
  then show ?case unfolding IH i_def by simp
qed

lemma prepared_key_at:
  assumes "0 < BT"
  shows "snd (prepare_qg_kg scale BT q k (chunk_local_cumsum BT g)) t c
         = decay_scaled_key BT k g t c"
  using chunk_local_cumsum_last [OF assms, of g "t div BT" c]
  by (simp add: prepare_qg_kg_def decay_scaled_key_def)

lemma launch_dk_inter_eq:
  assumes bt: "0 < BT" and t: "t < NT * BT" and nv: "V \<le> NV * BV" and c: "c < K"
  shows "launch_dk_inter (NT * BT) K V BT BV NV scale q k v g dout t c
         = state_gradient_dk V
             (state_gradient BT NT (decay_scaled_query scale BT q g) g dout None
                (NT - 1 - t div BT)) v t c"
proof -
  define n where "n = NT - 1 - t div BT"
  let ?f = "\<lambda>j. launch_dh (NT * BT) K V BT scale q k g dout n c j * load (NT * BT) V v t j"
  have n: "n \<le> NT" by (simp add: n_def)
  have n': "cdiv (NT * BT) BT - t div BT - 1 = n" by (simp add: n_def cdiv_whole [OF bt])
  have "launch_dk_inter (NT * BT) K V BT BV NV scale q k v g dout t c
        = (\<Sum>i_v<NV. \<Sum>j = i_v * BV..<i_v * BV + BV. ?f j)"
    unfolding launch_dk_inter_def fused_chunk_gla_bwd_dk_def launch_dh_def n' by (rule refl)
  also have "\<dots> = (\<Sum>j<V. ?f j)"
    by (rule sum_key_blocks [OF nv]) (simp add: load_def)
  also have "\<dots> = (\<Sum>j<V. state_gradient BT NT (decay_scaled_query scale BT q g) g dout None n c j
                        * v t j)"
    by (rule sum.cong [OF refl])
      (use t in \<open>simp add: load_def launch_dh_eq_state_gradient [OF bt c _ n]\<close>)
  finally show ?thesis by (simp add: state_gradient_dk_def n_def)
qed

lemma launch_dv_inter_eq:
  assumes bt: "0 < BT" and t: "t < NT * BT" and nk: "K \<le> NK * BK" and j: "j < V"
  shows "launch_dv_inter (NT * BT) K V BT BK NK scale q k g dout t j
         = state_gradient_dv K
             (state_gradient BT NT (decay_scaled_query scale BT q g) g dout None
                (NT - 1 - t div BT)) (decay_scaled_key BT k g) t j"
proof -
  define n where "n = NT - 1 - t div BT"
  let ?kg = "snd (prepare_qg_kg scale BT q k (chunk_local_cumsum BT g))"
  let ?f = "\<lambda>c. load (NT * BT) K ?kg t c * launch_dh (NT * BT) K V BT scale q k g dout n c j"
  have n: "n \<le> NT" by (simp add: n_def)
  have n': "cdiv (NT * BT) BT - t div BT - 1 = n" by (simp add: n_def cdiv_whole [OF bt])
  have "launch_dv_inter (NT * BT) K V BT BK NK scale q k g dout t j
        = (\<Sum>i_k<NK. \<Sum>c = i_k * BK..<i_k * BK + BK. ?f c)"
    unfolding launch_dv_inter_def fused_chunk_gla_bwd_dv_def launch_dh_def n' by (rule refl)
  also have "\<dots> = (\<Sum>c<K. ?f c)"
    by (rule sum_key_blocks [OF nk]) (simp add: load_def)
  also have "\<dots> = (\<Sum>c<K. decay_scaled_key BT k g t c
                        * state_gradient BT NT (decay_scaled_query scale BT q g) g dout None n c j)"
    by (rule sum.cong [OF refl])
      (use t in \<open>simp add: load_def launch_dh_eq_state_gradient [OF bt _ j n]
          prepared_key_at [OF bt]\<close>)
  finally show ?thesis by (simp add: state_gradient_dv_def n_def)
qed

lemma cum_grad_dg_sum:
  "n \<le> BT \<Longrightarrow> cum_grad_dg BT b i n c = (\<Sum>s = i * BT + BT - n..<i * BT + BT. b s c)"
proof (induction n)
  case 0
  show ?case by simp
next
  case (Suc n)
  have lt: "i * BT + BT - Suc n < i * BT + BT" using Suc.prems by simp
  have s: "Suc (i * BT + BT - Suc n) = i * BT + BT - n" using Suc.prems by simp
  have "(\<Sum>s = i * BT + BT - Suc n..<i * BT + BT. b s c)
        = b (i * BT + BT - Suc n) c + (\<Sum>s = Suc (i * BT + BT - Suc n)..<i * BT + BT. b s c)"
    by (rule sum.atLeast_Suc_lessThan [OF lt])
  then show ?case using Suc by (simp add: s)
qed

lemma kernel_dg_row:
  assumes "0 < BT"
  shows "cum_grad_dg BT b (t div BT) (BT - t mod BT) c
         = (\<Sum>s = t..<(t div BT) * BT + BT. b s c)"
proof -
  have "(t div BT) * BT + t mod BT = t" by (rule div_mult_mod_eq)
  moreover have "t mod BT < BT" using assms by simp
  ultimately have "(t div BT) * BT + BT - (BT - t mod BT) = t" by linarith
  then show ?thesis using cum_grad_dg_sum [of "BT - t mod BT" BT b "t div BT" c] by simp
qed

lemma rev_cumsum_exclusive_sum:
  assumes "n < NT"
  shows "rev_cumsum_exclusive NT x n c = (\<Sum>m = Suc n..<NT. x m c)"
proof -
  have "(\<Sum>m = 0..<Suc n. x m c) + (\<Sum>m = Suc n..<NT. x m c) = (\<Sum>m = 0..<NT. x m c)"
    by (rule sum.atLeastLessThan_concat) (use assms in simp_all)
  moreover have "{..n} = {0..<Suc n}" by auto
  ultimately show ?thesis
    by (simp add: rev_cumsum_exclusive_def lessThan_atLeast0)
qed

lemma chunk_sums_concat:
  fixes f :: "nat \<Rightarrow> real"
  shows "a \<le> NT \<Longrightarrow>
    (\<Sum>m = a..<NT. \<Sum>s = m * BT..<m * BT + BT. f s) = (\<Sum>s = a * BT..<NT * BT. f s)"
proof (induction NT)
  case 0
  then show ?case by simp
next
  case (Suc NT)
  show ?case
  proof (cases "a = Suc NT")
    case True
    then show ?thesis by simp
  next
    case False
    then have a: "a \<le> NT" using Suc.prems by simp
    have "(\<Sum>s = a * BT..<NT * BT. f s) + (\<Sum>s = NT * BT..<NT * BT + BT. f s)
          = (\<Sum>s = a * BT..<NT * BT + BT. f s)"
      by (rule sum.atLeastLessThan_concat) (use a in simp_all)
    then show ?thesis using a Suc.IH [OF a] by (simp add: add.commute)
  qed
qed

lemma suffix_sum_chunks:
  fixes f :: "nat \<Rightarrow> real"
  assumes bt: "0 < BT" and t: "t < NT * BT"
  shows "(\<Sum>s = t..<(t div BT) * BT + BT. f s)
         + (\<Sum>m = Suc (t div BT)..<NT. \<Sum>s = m * BT..<m * BT + BT. f s)
         = (\<Sum>s = t..<NT * BT. f s)"
proof -
  have d: "t div BT < NT" using t bt by (simp add: div_less_iff_less_mult)
  have e: "(t div BT) * BT + BT = Suc (t div BT) * BT" by simp
  have lo: "t \<le> Suc (t div BT) * BT"
  proof -
    have "(t div BT) * BT + t mod BT = t" by (rule div_mult_mod_eq)
    moreover have "t mod BT < BT" using bt by simp
    moreover have "Suc (t div BT) * BT = (t div BT) * BT + BT" by simp
    ultimately show ?thesis by linarith
  qed
  have hi: "Suc (t div BT) * BT \<le> NT * BT" using d by (intro mult_le_mono1) simp
  have "(\<Sum>m = Suc (t div BT)..<NT. \<Sum>s = m * BT..<m * BT + BT. f s)
        = (\<Sum>s = Suc (t div BT) * BT..<NT * BT. f s)"
    by (rule chunk_sums_concat) (use d in simp)
  moreover have "(\<Sum>s = t..<Suc (t div BT) * BT. f s) + (\<Sum>s = Suc (t div BT) * BT..<NT * BT. f s)
        = (\<Sum>s = t..<NT * BT. f s)"
    by (rule sum.atLeastLessThan_concat [OF lo hi])
  ultimately show ?thesis unfolding e by simp
qed

lemma launch_dq_inter_fun:
  "launch_dq_inter T K V BT BV NV scale q k v g_org h0 dout
   = (\<lambda>t c. \<Sum>i_v<NV. fused_chunk_gla_bwd_dq T K V BT BV
        (snd (prepare_qg_kg scale BT q k (chunk_local_cumsum BT g_org))) v
        (chunk_local_cumsum BT g_org) dout h0 scale i_v t c)"
  by (simp add: fun_eq_iff launch_dq_inter_def)

lemma launch_dk_inter_fun:
  "launch_dk_inter T K V BT BV NV scale q k v g_org dout
   = (\<lambda>t c. \<Sum>i_v<NV. fused_chunk_gla_bwd_dk T K V BT BV
        (fst (prepare_qg_kg scale BT q k (chunk_local_cumsum BT g_org))) v
        (chunk_local_cumsum BT g_org) dout i_v t c)"
  by (simp add: fun_eq_iff launch_dk_inter_def)

lemma launch_dA_fun:
  "launch_dA V BT scale v dout
   = (\<lambda>t j. (\<Sum>d<V. dout t d * v ((t div BT) * BT + j) d) * scale)"
  by (simp add: fun_eq_iff launch_dA_def)

lemma backward_eq:
  assumes "0 < K" "0 < V" "0 < T" "16 dvd T"
  shows "backward thr T K V
           \<lparr>saved_q = q, saved_k = k, saved_v = v, saved_g_org = g, saved_A = A,
            saved_initial_state = h0, ctx_scale = scale\<rparr> dout dht
     = Inr \<lparr>grad_q = fst (launch_decay thr T K V 16 (min (next_power_of_2 V) 64)
                            (cdiv V (min (next_power_of_2 V) 64)) scale q k v g h0 dout),
            grad_k = fst (snd (launch_decay thr T K V 16 (min (next_power_of_2 V) 64)
                                 (cdiv V (min (next_power_of_2 V) 64)) scale q k v g h0 dout)),
            grad_v = (\<lambda>t d. launch_dv_inter T K V 16 (min (next_power_of_2 K) 64)
                                 (cdiv K (min (next_power_of_2 K) 64)) scale q k g dout t d
                               + (\<Sum>i<16. A ((t div 16) * 16 + i) (t mod 16)
                                             * dout ((t div 16) * 16 + i) d)),
            grad_g = (\<lambda>t c. kernel_dg thr T K V scale q k v g h0 dout t c
                               + rev_cumsum_exclusive (T div 16)
                                   (\<lambda>n c. kernel_dg thr T K V scale q k v g h0 dout (n * 16) c)
                                   (t div 16) c)\<rparr>"
  using assms(1,2) whole_chunks [OF assms(3,4)]
  by (simp add: backward_def Let_def split_def launch_decay_def launch_inner_def launch_dA_fun
      launch_dq_inter_fun launch_dk_inter_fun launch_dv_inter_def kernel_dg_def)

lemma forward_backward_eq:
  assumes K: "0 < K" and V: "0 < V" and T0: "0 < T" and T: "16 dvd T"
  shows "forward_backward thr T K V q k v g scale h0 ofs dout dht
     = Inr \<lparr>grad_q = fst (launch_decay thr T K V 16 (min (next_power_of_2 V) 64)
                            (cdiv V (min (next_power_of_2 V) 64)) scale q k v g h0 dout),
            grad_k = fst (snd (launch_decay thr T K V 16 (min (next_power_of_2 V) 64)
                                 (cdiv V (min (next_power_of_2 V) 64)) scale q k v g h0 dout)),
            grad_v = (\<lambda>t d. launch_dv_inter T K V 16 (min (next_power_of_2 K) 64)
                                 (cdiv K (min (next_power_of_2 K) 64)) scale q k g dout t d
                               + (\<Sum>i<16. launch_scores thr T K 16 (min K 64) (cdiv K (min K 64))
                                               scale q k g ((t div 16) * 16 + i) (t mod 16)
                                             * dout ((t div 16) * 16 + i) d)),
            grad_g = (\<lambda>t c. kernel_dg thr T K V scale q k v g h0 dout t c
                               + rev_cumsum_exclusive (T div 16)
                                   (\<lambda>n c. kernel_dg thr T K V scale q k v g h0 dout (n * 16) c)
                                   (t div 16) c)\<rparr>"
  unfolding forward_backward_def forward_eq [OF K V T0 T]
  by (simp add: backward_eq [OF K V T0 T])

lemma grad_q_parts:
  assumes bt: "0 < BT" and t: "t < T" and nv: "V \<le> NV * BV" and c: "c < K"
  shows "fst (launch_decay thr T K V BT BV NV scale q k v g h0 dout) t c
         = fst (launch_inner thr T K V BT scale q k v g dout) t c
           + scale * (\<Sum>j<V. dout t j
                        * recurrence_state g k v (initial_or_zero h0) ((t div BT) * BT) c j)
             * exp (chunk_local_cumsum BT g t c)"
  by (simp add: launch_decay_def bwd_decay_global_cumsum_def decay_dq_def
      launch_dq_inter_eq [OF bt t nv c])

lemma grad_k_parts:
  "fst (snd (launch_decay thr T K V BT BV NV scale q k v g h0 dout)) t c
   = snd (launch_inner thr T K V BT scale q k v g dout) t c
     + launch_dk_inter T K V BT BV NV scale q k v g dout t c
       * safe_exp thr (chunk_local_cumsum BT g ((t div BT) * BT + BT - 1) c
                       - chunk_local_cumsum BT g t c)"
  by (simp add: launch_decay_def bwd_decay_global_cumsum_def decay_dk_def)

lemma launch_dg_row:
  assumes bt: "0 < BT"
  shows "snd (snd (launch_decay thr T K V BT BV NV scale q k v g h0 dout)) t c
         = (\<Sum>s = t..<(t div BT) * BT + BT.
              fst (launch_decay thr T K V BT BV NV scale q k v g h0 dout) s c * q s c
              - fst (snd (launch_decay thr T K V BT BV NV scale q k v g h0 dout)) s c * k s c)"
  by (simp add: launch_decay_def bwd_decay_global_cumsum_def kernel_dg_row [OF bt]
      decay_dg_def)

lemma backward_whole_chunks: "0 < T \<Longrightarrow> 16 dvd T \<Longrightarrow> T div 16 * 16 = (T::nat)"
  by simp

lemma grad_g_parts:
  assumes T: "16 dvd T" and t: "t < T"
  shows "kernel_dg thr T K V scale q k v g h0 dout t c
           + rev_cumsum_exclusive (T div 16)
               (\<lambda>n c. kernel_dg thr T K V scale q k v g h0 dout (n * 16) c) (t div 16) c
         = kernel_dg thr T K V scale q k v g h0 dout t c
           + (\<Sum>n = Suc (t div 16)..<T div 16.
                kernel_dg thr T K V scale q k v g h0 dout (n * 16) c)"
proof -
  have "T div 16 * 16 = T" using T by simp
  then have "t div 16 < T div 16" using t by (simp add: div_less_iff_less_mult)
  then show ?thesis by (simp add: rev_cumsum_exclusive_sum)
qed

lemma grad_g_suffix:
  assumes T: "16 dvd T" and t: "t < T"
  shows "kernel_dg thr T K V scale q k v g h0 dout t c
           + (\<Sum>n = Suc (t div 16)..<T div 16.
                kernel_dg thr T K V scale q k v g h0 dout (n * 16) c)
         = (\<Sum>s = t..<T.
              fst (launch_decay thr T K V 16 (min (next_power_of_2 V) 64)
                     (cdiv V (min (next_power_of_2 V) 64)) scale q k v g h0 dout) s c * q s c
              - fst (snd (launch_decay thr T K V 16 (min (next_power_of_2 V) 64)
                            (cdiv V (min (next_power_of_2 V) 64)) scale q k v g h0 dout)) s c
                * k s c)"
proof -
  define L where "L = launch_decay thr T K V 16 (min (next_power_of_2 V) 64)
                 (cdiv V (min (next_power_of_2 V) 64)) scale q k v g h0 dout"
  let ?f = "\<lambda>s. fst L s c * q s c - fst (snd L) s c * k s c"
  have TT: "T div 16 * 16 = T" using T by simp
  have row: "kernel_dg thr T K V scale q k v g h0 dout s c
             = (\<Sum>s = s..<(s div 16) * 16 + 16. ?f s)" for s
    unfolding kernel_dg_def L_def by (rule launch_dg_row) simp
  have heads: "kernel_dg thr T K V scale q k v g h0 dout (n * 16) c
               = (\<Sum>s = n * 16..<n * 16 + 16. ?f s)" for n
    using row [of "n * 16"] by simp
  have "(\<Sum>s = t..<(t div 16) * 16 + 16. ?f s)
        + (\<Sum>m = Suc (t div 16)..<T div 16. \<Sum>s = m * 16..<m * 16 + 16. ?f s)
        = (\<Sum>s = t..<T div 16 * 16. ?f s)"
    by (rule suffix_sum_chunks) (use t TT in simp_all)
  then show ?thesis unfolding L_def [symmetric] by (simp add: row [of t] heads TT)
qed

lemma recurrence_state_idle:
  "recurrence_state zeros zeros v S0 t = S0"
  by (induction t) (simp_all add: zeros_def)

lemma chunk_local_cumsum_zeros: "chunk_local_cumsum BT zeros t c = 0"
  by (simp add: chunk_local_cumsum_def zeros_def)

lemma launch_inner_zero_dout:
  "launch_inner thr T K V BT scale q k v g zeros = (\<lambda>t c. 0, \<lambda>t c. 0)"
  by (simp add: launch_inner_def bwd_inner_chunk_def launch_dA_fun zeros_def)

lemma launch_inner_zero_value:
  "launch_inner thr T K V BT scale q k zeros g dout = (\<lambda>t c. 0, \<lambda>t c. 0)"
  by (simp add: launch_inner_def bwd_inner_chunk_def launch_dA_fun zeros_def)

lemma linear_attention_ones:
  "linear_attention_state ones ones (\<lambda>c j. 0) t c j = real t"
  by (induction t) (simp_all add: ones_def)

lemma next_power_of_2_1: "next_power_of_2 (Suc 0) = Suc 0"
  by (simp add: next_power_of_2_def floorlog_def)

lemma backward_ignores_dht:
  "backward thr T K V cx dout dht = backward thr T K V cx dout None"
  by (simp add: backward_def)

lemma bwd_state_is_chunk_start_state:
  assumes t: "t < T" and c: "c < K" and j: "j < V"
  shows "launch_bwd_state T K V 16 scale q k v g h0 (t div 16) j c
         = recurrence_state g k v (initial_or_zero h0) ((t div 16) * 16) c j"
proof -
  have le: "(t div 16) * 16 \<le> T" using t chunk_start_le [of t 16] by linarith
  show ?thesis
    unfolding launch_bwd_state_def bwd_state_transposed
    by (rule fwd_state_eq_recurrence [OF _ le c j]) simp
qed


section \<open>Claims about the forward pass\<close>

text \<open>
  Claim C2. In the forward state-passing kernel, for every whole chunk \<open>i\<close> of the sequence,
  the inter-chunk output of a row of the chunk is the query row, scaled by the exponential
  of its chunk-local cumulative decay and by the attention scale, multiplied with the state
  on entry to the chunk; and the state on entry to the next chunk is the state on entry to
  this one times the exponential of the chunk-total decay (the same factor for every value
  column), plus the transposed key block times the value block, every key row scaled by the
  exponential of the chunk-total decay minus its chunk-local cumulative decay. The key
  blocks of the launch cover all \<open>K\<close> key channels.
\<close>

theorem forward_state_passing_step:
  assumes bt: "0 < BT" and i: "Suc i * BT \<le> T" and nk: "K \<le> NK * BK"
    and r: "r < BT" and c: "c < K" and d: "d < V"
  shows "launch_inter_output T K V BT BK NK scale q k v g h0 (i * BT + r) d
           = (\<Sum>c<K. decay_scaled_query scale BT q g (i * BT + r) c
                      * launch_state T K V BT scale q k v g h0 i c d)
       \<and> launch_state T K V BT scale q k v g h0 (Suc i) c d
           = launch_state T K V BT scale q k v g h0 i c d * exp (chunk_total_decay BT g i c)
             + (\<Sum>r<BT. decay_scaled_key BT k g (i * BT + r) c * v (i * BT + r) d)"
proof
  let ?gc = "chunk_local_cumsum BT g"
  let ?qg = "fst (prepare_qg_kg scale BT q k ?gc)"
  let ?kg = "snd (prepare_qg_kg scale BT q k ?gc)"
  let ?t = "i * BT + r"
  have t: "?t < T" using i r by simp
  have tdiv: "?t div BT = i" using r by simp
  let ?f = "\<lambda>c. load T K ?qg ?t c * fused_chunk_gla_fwd_state T K V BT ?kg v ?gc h0 i c d"
  have "launch_inter_output T K V BT BK NK scale q k v g h0 ?t d
        = (\<Sum>i_k<NK. \<Sum>c = i_k * BK..<i_k * BK + BK. ?f c)"
    by (simp add: launch_inter_output_def fused_chunk_gla_fwd_kernel_def tdiv)
  also have "\<dots> = (\<Sum>c<K. ?f c)"
    by (rule sum_key_blocks [OF nk]) (simp add: load_def)
  also have "\<dots> = (\<Sum>c<K. decay_scaled_query scale BT q g ?t c
                      * launch_state T K V BT scale q k v g h0 i c d)"
    by (rule sum.cong [OF refl])
      (use t in \<open>simp add: load_def prepare_qg_kg_def decay_scaled_query_def launch_state_def\<close>)
  finally show "launch_inter_output T K V BT BK NK scale q k v g h0 ?t d
        = (\<Sum>c<K. decay_scaled_query scale BT q g ?t c
                      * launch_state T K V BT scale q k v g h0 i c d)" .
next
  let ?gc = "chunk_local_cumsum BT g"
  let ?kg = "snd (prepare_qg_kg scale BT q k ?gc)"
  have row: "load T K ?kg (i * BT + r) c * load T V v (i * BT + r) d
             = decay_scaled_key BT k g (i * BT + r) c * v (i * BT + r) d" if "r < BT" for r
  proof -
    have "i * BT + r < T" using i that by simp
    then show ?thesis
      using c d prepared_key_row [OF bt that, of scale q k g i c] by (simp add: load_def)
  qed
  show "launch_state T K V BT scale q k v g h0 (Suc i) c d
           = launch_state T K V BT scale q k v g h0 i c d * exp (chunk_total_decay BT g i c)
             + (\<Sum>r<BT. decay_scaled_key BT k g (i * BT + r) c * v (i * BT + r) d)"
    using c chunk_local_cumsum_last [OF bt, of g i c] row
    by (simp add: launch_state_def)
qed

theorem forward_state_passing_step_witness:
  "launch_inter_output 2 1 1 2 1 1 1 ones ones ones zeros None 1 0
     = (\<Sum>c<1. decay_scaled_query 1 2 ones zeros 1 c
                * launch_state 2 1 1 2 1 ones ones ones zeros None 0 c 0)
   \<and> launch_state 2 1 1 2 1 ones ones ones zeros None (Suc 0) 0 0
     = launch_state 2 1 1 2 1 ones ones ones zeros None 0 0 0 * exp (chunk_total_decay 2 zeros 0 0)
       + (\<Sum>r<2. decay_scaled_key 2 ones zeros (0 * 2 + r) 0 * ones (0 * 2 + r) 0)"
  using forward_state_passing_step [where BT = 2 and i = 0 and T = 2 and K = 1 and NK = 1
      and BK = 1 and r = 1 and c = 0 and d = 0 and V = 1 and scale = 1 and q = ones
      and k = ones and v = ones and g = zeros and ?h0.0 = None]
  by simp

text \<open>
  Claim C1, as amended. For every query, key, value and gate input and optional initial
  state, with nonempty key and value axes and no exponent of the intra-chunk scores below
  the threshold of the safe exponential, the output of the chunked engine at step \<open>t\<close> is
  the attention scale times the query of step \<open>t\<close> applied to the state of the sequential
  recurrence \<open>S_t = S_{t-1} \<cdot> exp(gate_t) + key_t\<^sup>T \<cdot> value_t\<close> after step \<open>t\<close>, and the final
  state is the state of that recurrence after the last step. Equality is exact.
\<close>

theorem chunked_engine_refines_recurrence:
  assumes "0 < K" "0 < V" "t < T" "c < K" "d < V" "no_clamp thr T K 16 g"
  shows "result_output (fused_chunk_gla thr T K V q k v g scale h0 ofs) t d
           = Some (recurrence_output K (if scale = - 1 then real K powr (- (1 / 2)) else scale)
                     q g k v (initial_or_zero h0) t d)
       \<and> result_final_state (fused_chunk_gla thr T K V q k v g scale h0 True) c d
           = Some (recurrence_state g k v (initial_or_zero h0) T c d)"
proof -
  have "0 < T" using assms(3) by simp
  then show ?thesis
    using assms by (simp add: fused_chunk_gla_output fused_chunk_gla_final_state)
qed

theorem chunked_engine_refines_recurrence_witness:
  "result_output (fused_chunk_gla (- 1) 1 1 1 ones ones ones zeros 1 None True) 0 0 = Some 1
   \<and> result_final_state (fused_chunk_gla (- 1) 1 1 1 ones ones ones zeros 1 None True) 0 0 = Some 1"
  using chunked_engine_refines_recurrence [where K = 1 and V = 1 and t = 0 and T = 1 and c = 0
      and d = 0 and thr = "- 1" and g = zeros and q = ones and k = ones and v = ones
      and scale = 1 and ?h0.0 = None and ofs = True]
  by (simp add: no_clamp_zeros recurrence_output_def initial_or_zero_def ones_def zeros_def)

text \<open>
  Claim C1 as stated fails: with one time step, one key and one value channel, query, key
  and value equal to one, a zero gate and no initial state, the engine returns one, while
  the query applied to the decayed past state is zero, the past state being empty.
\<close>

theorem output_is_not_decayed_past_state:
  "result_output (fused_chunk_gla (- 1) 1 1 1 ones ones ones zeros 1 None True) 0 0
   \<noteq> Some (decayed_past_output 1 ones zeros ones ones (initial_or_zero None) 0 0)"
  using fused_chunk_gla_output [where K = 1 and V = 1 and t = 0 and T = 1
      and d = 0 and thr = "- 1" and g = zeros and q = ones and k = ones and v = ones
      and scale = 1 and ?h0.0 = None and ofs = True]
  by (simp add: no_clamp_zeros recurrence_output_def decayed_past_output_def
      initial_or_zero_def ones_def zeros_def)

text \<open>
  Claim C9. For every query, key and value input, with the gate equal to zero at every
  position and channel (and a threshold of the safe exponential that is not positive), the
  engine returns exactly the output of ungated linear attention, whose state update is
  \<open>S \<leftarrow> S + key\<^sup>T \<cdot> value\<close>.
\<close>

theorem zero_gate_is_linear_attention:
  assumes "0 < K" "0 < V" "t < T" "d < V" "thr \<le> 0"
  shows "result_output (fused_chunk_gla thr T K V q k v zeros scale h0 ofs) t d
         = Some (linear_attention_output K
                   (if scale = - 1 then real K powr (- (1 / 2)) else scale)
                   q k v (initial_or_zero h0) t d)"
proof -
  have "recurrence_output K sc q zeros k v S0 t d = linear_attention_output K sc q k v S0 t d"
    for sc S0
    unfolding recurrence_output_def linear_attention_output_def recurrence_zero_gate ..
  then show ?thesis
    using assms fused_chunk_gla_output [OF assms(1-4) no_clamp_zeros [OF assms(5)]]
    by simp
qed

theorem zero_gate_is_linear_attention_witness:
  "result_output (fused_chunk_gla (- 1) 1 1 1 ones ones ones zeros 2 None False) 0 0
   = Some (linear_attention_output 1 2 ones ones ones (initial_or_zero None) 0 0)"
  using zero_gate_is_linear_attention [where K = 1 and V = 1 and t = 0 and T = 1
      and d = 0 and thr = "- 1" and q = ones and k = ones and v = ones
      and scale = 2 and ?h0.0 = None and ofs = False]
  by simp

text \<open>
  Claim C5, as amended. For every chunk, the intra-chunk interaction matrix the forward
  pass computes and saves is \<open>A[i,j] = scale \<cdot> \<Sum>\<^sub>c query[i,c] \<cdot> key[j,c] \<cdot>
  safe_exp(cum_decay[i,c] - cum_decay[j,c])\<close> for \<open>j \<le> i\<close> and \<open>A[i,j] = 0\<close> for \<open>j > i\<close>,
  with the clamped exponential in place of the exponential; the intra-chunk output is
  \<open>A\<close> times the value block and is added elementwise to the inter-chunk output. The
  sequence length is a multiple of the chunk length \<open>16\<close>, as the forward pass requires.
\<close>

theorem intra_chunk_matrix_and_output:
  assumes K: "0 < K" and V: "0 < V" and T: "16 dvd T" and t: "t < T"
  shows "forward_scores (forward thr T K V q k v g scale h0 ofs) t j
           = Some (causal_scores (safe_exp thr) K 16 scale q k g t j)
       \<and> forward_output (forward thr T K V q k v g scale h0 ofs) t d
           = Some (launch_inter_output T K V 16 (min K 64) (cdiv K (min K 64)) scale q k v g h0 t d
                   + (\<Sum>j<16. causal_scores (safe_exp thr) K 16 scale q k g t j
                                * v ((t div 16) * 16 + j) d))"
proof -
  have T0: "0 < T" using t by simp
  have sc: "launch_scores thr T K 16 (min K 64) (cdiv K (min K 64)) scale q k g t j
            = causal_scores (safe_exp thr) K 16 scale q k g t j" for j
    by (rule launch_scores_eq [OF _ t key_blocks_cover [OF K]]) simp
  show ?thesis
    by (simp add: forward_eq [OF K V T0 T] forward_scores_def forward_output_def sc)
qed

theorem intra_chunk_matrix_and_output_witness:
  "forward_scores (forward (- 100) 16 1 1 ones ones ones low_gate 1 None False) 1 0
     = Some (causal_scores (safe_exp (- 100)) 1 16 1 ones ones low_gate 1 0)
   \<and> forward_output (forward (- 100) 16 1 1 ones ones ones low_gate 1 None False) 1 0
     = Some (launch_inter_output 16 1 1 16 (min 1 64) (cdiv 1 (min 1 64)) 1 ones ones ones
               low_gate None 1 0
             + (\<Sum>j<16. causal_scores (safe_exp (- 100)) 1 16 1 ones ones low_gate 1 j
                          * ones ((1 div 16) * 16 + j) 0))"
  using intra_chunk_matrix_and_output [where K = 1 and V = 1 and t = 1 and T = 16
      and thr = "- 100" and q = ones and k = ones and v = ones and g = low_gate and scale = 1
      and ?h0.0 = None and ofs = False and j = 0 and d = 0]
  by simp

text \<open>
  Claim C5 as stated fails: with a gate of \<open>-200\<close> per step and a threshold of \<open>-100\<close>
  the entry \<open>A[1,0]\<close> is clamped to zero, while the formula with the exponential gives
  \<open>exp(-200)\<close>.
\<close>

theorem clamped_score_is_not_exponential:
  "forward_scores (forward (- 100) 16 1 1 ones ones ones low_gate 1 None False) 1 0
   \<noteq> Some (causal_scores exp 1 16 1 ones ones low_gate 1 0)"
  using launch_scores_eq [where BT = 16 and t = 1 and T = 16 and K = 1 and NK = 1 and BK = 1
      and thr = "- 100" and scale = 1 and q = ones and k = ones and g = low_gate and j = 0]
  by (simp add: forward_eq forward_scores_def causal_scores_def low_gate_cumsum cdiv_def
      safe_exp_def ones_def)





section \<open>Claims about the DPLR state-gradient pass\<close>



section \<open>Claims about the backward pass\<close>

text \<open>
  Claim C8, as amended. The forward pass saves its inputs \<open>q\<close>, \<open>k\<close>, \<open>v\<close>, the gate, the
  intra-chunk matrix \<open>A\<close> and the initial state, and no per-chunk state. The backward pass
  recomputes the \<open>K \<times> V\<close> state at the start of every chunk by replaying the forward state
  recurrence from the initial state: the register of its first loop on entry to the chunk of
  row \<open>t\<close> is the state of the sequential recurrence before the first row of that chunk. The
  gradient of the query at row \<open>t\<close> is the intra-chunk part plus the inter-chunk
  contribution \<open>scale \<cdot> dO[t] @ S\<^sup>T\<close> of that recomputed pre-update state, times the
  exponential of the chunk-local cumulative decay of the row.
\<close>

theorem backward_recomputes_chunk_state:
  assumes K: "0 < K" and V: "0 < V" and T: "16 dvd T" and t: "t < T" and c: "c < K"
    and j: "j < V"
  shows "saved_tensors (forward thr T K V q k v g scale h0 ofs)
           = [q, k, v, g, launch_scores thr T K 16 (min K 64) (cdiv K (min K 64)) scale q k g]
             @ (case h0 of None \<Rightarrow> [] | Some h \<Rightarrow> [h])
       \<and> launch_bwd_state T K V 16 scale q k v g h0 (t div 16) j c
           = recurrence_state g k v (initial_or_zero h0) ((t div 16) * 16) c j
       \<and> backward_grad_q (forward_backward thr T K V q k v g scale h0 ofs dout dht) t c
           = Some (fst (launch_inner thr T K V 16 scale q k v g dout) t c
                   + scale * (\<Sum>j<V. dout t j
                                * recurrence_state g k v (initial_or_zero h0)
                                    ((t div 16) * 16) c j)
                     * exp (chunk_local_cumsum 16 g t c))"
proof -
  have T0: "0 < T" using t by simp
  have a: "saved_tensors (forward thr T K V q k v g scale h0 ofs)
           = [q, k, v, g, launch_scores thr T K 16 (min K 64) (cdiv K (min K 64)) scale q k g]
             @ (case h0 of None \<Rightarrow> [] | Some h \<Rightarrow> [h])"
    by (simp add: forward_eq [OF K V T0 T] saved_tensors_def)
  have b: "backward_grad_q (forward_backward thr T K V q k v g scale h0 ofs dout dht) t c
           = Some (fst (launch_inner thr T K V 16 scale q k v g dout) t c
                   + scale * (\<Sum>j<V. dout t j
                                * recurrence_state g k v (initial_or_zero h0)
                                    ((t div 16) * 16) c j)
                     * exp (chunk_local_cumsum 16 g t c))"
    unfolding forward_backward_eq [OF K V T0 T] backward_grad_q_def
    using grad_q_parts [OF _ t value_blocks_cover [OF V] c, of 16 thr scale q k v g h0 dout]
    by simp
  show ?thesis
    using a b bwd_state_is_chunk_start_state [OF t c j] by blast
qed

theorem backward_recomputes_chunk_state_witness:
  "saved_tensors (forward (- 1) 32 1 1 ones ones ones zeros 1 (Some ones) False)
           = [ones, ones, ones, zeros,
              launch_scores (- 1) 32 1 16 (min 1 64) (cdiv 1 (min 1 64)) 1 ones ones zeros]
             @ (case Some ones of None \<Rightarrow> [] | Some h \<Rightarrow> [h])
       \<and> launch_bwd_state 32 1 1 16 1 ones ones ones zeros (Some ones) (17 div 16) 0 0
           = recurrence_state zeros ones ones (initial_or_zero (Some ones)) ((17 div 16) * 16) 0 0
       \<and> backward_grad_q (forward_backward (- 1) 32 1 1 ones ones ones zeros 1 (Some ones) False
                             ones None) 17 0
           = Some (fst (launch_inner (- 1) 32 1 1 16 1 ones ones ones zeros ones) 17 0
                   + 1 * (\<Sum>j<1. ones 17 j
                                * recurrence_state zeros ones ones (initial_or_zero (Some ones))
                                    ((17 div 16) * 16) 0 j)
                     * exp (chunk_local_cumsum 16 zeros 17 0))"
  by (rule backward_recomputes_chunk_state) simp_all

text \<open>
  Claim C8 as stated fails: on \<open>32\<close> steps with query, key and value equal to one, a zero
  gate and no initial state, the state at the start of the second chunk, whose entries are
  \<open>16\<close>, is none of the tensors the forward pass saves.
\<close>

theorem chunk_state_is_not_saved:
  "launch_state 32 1 1 16 1 ones ones ones zeros None 1
   \<notin> set (saved_tensors (forward (- 1) 32 1 1 ones ones ones zeros 1 None False))"
proof -
  define S where "S = launch_state 32 1 1 16 1 ones ones ones zeros None 1"
  define A where "A = launch_scores (- 1) 32 1 16 (min 1 64) (cdiv 1 (min 1 64)) 1 ones ones zeros"
  have "S 0 0 = recurrence_state zeros ones ones (initial_or_zero None) (1 * 16) 0 0"
    unfolding S_def launch_state_def by (rule fwd_state_eq_recurrence) simp_all
  then have S: "S 0 0 = 16"
    by (simp add: recurrence_zero_gate initial_or_zero_def linear_attention_ones)
  have "A 0 0 = causal_scores (safe_exp (- 1)) 1 16 1 ones ones zeros 0 0"
    unfolding A_def by (rule launch_scores_eq) (simp_all add: cdiv_def)
  then have A: "A 0 0 = 1"
    by (simp add: causal_scores_def chunk_local_cumsum_zeros safe_exp_def ones_def)
  have st: "saved_tensors (forward (- 1) 32 1 1 ones ones ones zeros 1 None False)
            = [ones, ones, ones, zeros, A]"
    unfolding A_def by (simp add: forward_eq saved_tensors_def)
  have ne: "S \<noteq> x" if "x 0 0 \<noteq> 16" for x
    using S that by auto
  have "S \<noteq> ones" "S \<noteq> zeros" "S \<noteq> A"
    using A by (simp_all add: ne ones_def zeros_def)
  then show ?thesis
    unfolding S_def [symmetric] st by simp
qed

text \<open>
  Claim C3, as amended. The state-gradient loop of \<^verbatim>\<open>fused_chunk_gla_bwd_kernel\<close> visits the
  \<open>NT\<close> chunks in decreasing time order with the state gradient \<open>dS\<close> starting at zero, and
  for every chunk updates \<open>dS \<leftarrow> dS \<cdot> exp(chunk-total decay) + query\<^sup>T @ dO_block\<close> before
  moving to the earlier chunk, the query and the key being the decay-scaled ones the kernel
  is launched with; the \<open>dK\<close> contribution of a chunk is \<open>(dS @ value\<^sup>T)\<^sup>T\<close> and its \<open>dV\<close>
  contribution is \<open>key @ dS\<close>, with \<open>dS\<close> on entry to the chunk. The gradient of the final
  state that the backward pass is handed is not read: the pass returns the same with and
  without it. \<^verbatim>\<open>chunk_dplr_bwd_kernel_dhu\<close> does start from the final-state gradient: the
  state gradient it stores for the last chunk is that gradient when one is present and zero
  otherwise.
\<close>

theorem state_gradient_pass:
  assumes bt: "0 < BT" and n: "n \<le> NT" and t: "t < NT * BT" and c: "c < K" and j: "j < V"
    and nk: "K \<le> NK * BK" and nv: "V \<le> NV * BV" and kd: "K \<le> BKd"
  shows "launch_dh (NT * BT) K V BT scale q k g dout n c j
           = state_gradient BT NT (decay_scaled_query scale BT q g) g dout None n c j
       \<and> launch_dk_inter (NT * BT) K V BT BV NV scale q k v g dout t c
           = state_gradient_dk V
               (state_gradient BT NT (decay_scaled_query scale BT q g) g dout None
                  (NT - 1 - t div BT)) v t c
       \<and> launch_dv_inter (NT * BT) K V BT BK NK scale q k g dout t j
           = state_gradient_dv K
               (state_gradient BT NT (decay_scaled_query scale BT q g) g dout None
                  (NT - 1 - t div BT)) (decay_scaled_key BT k g) t j
       \<and> forward_backward thr (NT * BT) K V q k v g scale h0 ofs dout dht
           = forward_backward thr (NT * BT) K V q k v g scale h0 ofs dout None
       \<and> mem_dh (chunk_dplr_bwd_kernel_dhu (NT * BT) K V BT BC BKd qg bg w gk dht dout m)
             (NT - 1) c j
           = state_gradient_init dht c j"
proof -
  have T0: "0 < NT * BT" using t by linarith
  have a: "forward_backward thr (NT * BT) K V q k v g scale h0 ofs dout dht
           = forward_backward thr (NT * BT) K V q k v g scale h0 ofs dout None"
    by (simp only: forward_backward_def backward_ignores_dht [of thr _ K V _ dout dht])
  have b: "mem_dh (chunk_dplr_bwd_kernel_dhu (NT * BT) K V BT BC BKd qg bg w gk dht dout m)
             (NT - 1) c j
           = state_gradient_init dht c j"
    using dhu_kernel_last_chunk [OF T0 bt kd c j, of BC qg bg w gk dht dout m]
    by (simp add: cdiv_whole [OF bt] state_gradient_init_def split: option.splits)
  show ?thesis
    using launch_dh_eq_state_gradient [OF bt c j n, of scale q k g dout]
      launch_dk_inter_eq [OF bt t nv c, of scale q k v g dout]
      launch_dv_inter_eq [OF bt t nk j, of scale q k g dout] a b
    by blast
qed

theorem state_gradient_pass_witness:
  "launch_dh (2 * 16) 1 1 16 1 ones ones zeros ones 1 0 0
           = state_gradient 16 2 (decay_scaled_query 1 16 ones zeros) zeros ones None 1 0 0
       \<and> launch_dk_inter (2 * 16) 1 1 16 1 1 1 ones ones ones zeros ones 5 0
           = state_gradient_dk 1
               (state_gradient 16 2 (decay_scaled_query 1 16 ones zeros) zeros ones None
                  (2 - 1 - 5 div 16)) ones 5 0
       \<and> launch_dv_inter (2 * 16) 1 1 16 1 1 1 ones ones zeros ones 5 0
           = state_gradient_dv 1
               (state_gradient 16 2 (decay_scaled_query 1 16 ones zeros) zeros ones None
                  (2 - 1 - 5 div 16)) (decay_scaled_key 16 ones zeros) 5 0
       \<and> forward_backward (- 1) (2 * 16) 1 1 ones ones ones zeros 1 None False ones (Some ones)
           = forward_backward (- 1) (2 * 16) 1 1 ones ones ones zeros 1 None False ones None
       \<and> mem_dh (chunk_dplr_bwd_kernel_dhu (2 * 16) 1 1 16 16 1 ones ones ones zeros (Some ones)
                    ones \<lparr>mem_dh = (\<lambda>n. zeros), mem_dh0 = None, mem_dv = ones,
                           mem_dv2 = zeros\<rparr>)
             (2 - 1) 0 0
           = state_gradient_init (Some ones) 0 0"
  by (rule state_gradient_pass) simp_all

text \<open>
  Claim C3 as stated fails: on one chunk of \<open>16\<close> steps with query, key and value equal
  to one, a zero gate, a zero output gradient and a final-state gradient equal to one, the
  backward pass returns a key gradient of zero at the last row, where \<open>(dS @ value\<^sup>T)\<^sup>T\<close>
  with \<open>dS\<close> started from the final-state gradient is one.
\<close>

theorem final_state_gradient_is_not_read:
  "backward_grad_k (forward_backward (- 1) 16 1 1 ones ones ones zeros 1 None False zeros
                      (Some ones)) 15 0
   \<noteq> Some (state_gradient_dk 1
             (state_gradient 16 1 (decay_scaled_query 1 16 ones zeros) zeros zeros (Some ones) 0)
             ones 15 0)"
proof -
  have dk: "launch_dk_inter (1 * 16) 1 1 16 1 1 1 ones ones ones zeros zeros 15 0
            = state_gradient_dk 1
               (state_gradient 16 1 (decay_scaled_query 1 16 ones zeros) zeros zeros None
                  (1 - 1 - 15 div 16)) ones 15 0"
    by (rule launch_dk_inter_eq) simp_all
  have "backward_grad_k (forward_backward (- 1) 16 1 1 ones ones ones zeros 1 None False zeros
                      (Some ones)) 15 0 = Some 0"
    using dk
    by (simp add: forward_backward_eq backward_grad_k_def grad_k_parts launch_inner_zero_dout
        next_power_of_2_1 cdiv_def state_gradient_dk_def state_gradient_init_def)
  then show ?thesis
    by (simp add: state_gradient_dk_def state_gradient_init_def ones_def)
qed

text \<open>
  Claim C4, as amended. For every position \<open>t\<close>, the final gate gradient of the backward
  pass is the gate gradient \<^verbatim>\<open>bwd_decay_global_cumsum\<close> leaves at \<open>t\<close> plus a
  reverse-exclusive cumulative sum that runs over the chunk axis: the sum, over the chunks
  strictly after the chunk of \<open>t\<close> up to the last chunk, of the gate gradient at the first
  row of the chunk. The gate gradient the kernel leaves at \<open>t\<close> is the sum of the
  per-position terms \<open>dq \<cdot> q - dk \<cdot> k\<close> from \<open>t\<close> to the end of its chunk, so the final gate
  gradient at \<open>t\<close> is the sum of these terms over all positions from \<open>t\<close> to the end of the
  sequence.
\<close>

theorem gate_gradient_is_suffix_sum:
  assumes K: "0 < K" and V: "0 < V" and T: "16 dvd T" and t: "t < T"
  shows "\<exists>gr. forward_backward thr T K V q k v g scale h0 ofs dout dht = Inr gr
          \<and> grad_g gr t c
              = kernel_dg thr T K V scale q k v g h0 dout t c
                + (\<Sum>n = Suc (t div 16)..<T div 16.
                     kernel_dg thr T K V scale q k v g h0 dout (n * 16) c)
          \<and> kernel_dg thr T K V scale q k v g h0 dout t c
              = (\<Sum>s = t..<(t div 16) * 16 + 16. gate_term gr q k s c)
          \<and> grad_g gr t c = (\<Sum>s = t..<T. gate_term gr q k s c)"
proof -
  have T0: "0 < T" using t by simp
  define L where "L = launch_decay thr T K V 16 (min (next_power_of_2 V) 64)
                 (cdiv V (min (next_power_of_2 V) 64)) scale q k v g h0 dout"
  define gr where "gr = \<lparr>grad_q = fst L, grad_k = fst (snd L),
     grad_v = (\<lambda>t d. launch_dv_inter T K V 16 (min (next_power_of_2 K) 64)
                        (cdiv K (min (next_power_of_2 K) 64)) scale q k g dout t d
                      + (\<Sum>i<16. launch_scores thr T K 16 (min K 64) (cdiv K (min K 64))
                                      scale q k g ((t div 16) * 16 + i) (t mod 16)
                                    * dout ((t div 16) * 16 + i) d)),
     grad_g = (\<lambda>t c. kernel_dg thr T K V scale q k v g h0 dout t c
                      + rev_cumsum_exclusive (T div 16)
                          (\<lambda>n c. kernel_dg thr T K V scale q k v g h0 dout (n * 16) c)
                          (t div 16) c)\<rparr>"
  have run: "forward_backward thr T K V q k v g scale h0 ofs dout dht = Inr gr"
    unfolding gr_def L_def by (rule forward_backward_eq [OF K V T0 T])
  have gt: "gate_term gr q k s c = fst L s c * q s c - fst (snd L) s c * k s c" for s
    by (simp add: gate_term_def gr_def)
  have g1: "grad_g gr t c
              = kernel_dg thr T K V scale q k v g h0 dout t c
                + (\<Sum>n = Suc (t div 16)..<T div 16.
                     kernel_dg thr T K V scale q k v g h0 dout (n * 16) c)"
    using grad_g_parts [OF T t, of thr K V scale q k v g h0 dout c] by (simp add: gr_def)
  have g2: "kernel_dg thr T K V scale q k v g h0 dout t c
              = (\<Sum>s = t..<(t div 16) * 16 + 16. gate_term gr q k s c)"
    unfolding gt kernel_dg_def L_def by (rule launch_dg_row) simp
  have g3: "grad_g gr t c = (\<Sum>s = t..<T. gate_term gr q k s c)"
    unfolding g1 gt L_def by (rule grad_g_suffix [OF T t])
  show ?thesis using run g1 g2 g3 by blast
qed

theorem gate_gradient_is_suffix_sum_witness:
  "\<exists>gr. forward_backward (- 1) 32 1 1 (row_only 16 1) zeros zeros zeros 1 (Some ones) False
           (row_only 16 1) None = Inr gr
          \<and> grad_g gr 15 0
              = kernel_dg (- 1) 32 1 1 1 (row_only 16 1) zeros zeros zeros (Some ones)
                  (row_only 16 1) 15 0
                + (\<Sum>n = Suc (15 div 16)..<32 div 16.
                     kernel_dg (- 1) 32 1 1 1 (row_only 16 1) zeros zeros zeros (Some ones)
                       (row_only 16 1) (n * 16) 0)
          \<and> kernel_dg (- 1) 32 1 1 1 (row_only 16 1) zeros zeros zeros (Some ones)
                (row_only 16 1) 15 0
              = (\<Sum>s = 15..<(15 div 16) * 16 + 16. gate_term gr (row_only 16 1) zeros s 0)
          \<and> grad_g gr 15 0 = (\<Sum>s = 15..<32. gate_term gr (row_only 16 1) zeros s 0)"
  by (rule gate_gradient_is_suffix_sum) simp_all

text \<open>
  Claim C4 as stated fails: on \<open>32\<close> steps with an initial state of one, zero key, value
  and gate, and query and output gradient equal to one at step \<open>16\<close> only, the final gate
  gradient at step \<open>15\<close>, the end of the first chunk, exceeds the kernel's gate gradient
  there by one, while a reverse-exclusive sum over the steps after \<open>15\<close> up to the end of
  its chunk is empty.
\<close>

theorem gate_gradient_crosses_chunks:
  "backward_grad_g (forward_backward (- 1) 32 1 1 (row_only 16 1) zeros zeros zeros 1 (Some ones)
                      False (row_only 16 1) None) 15 0
   \<noteq> Some (kernel_dg (- 1) 32 1 1 1 (row_only 16 1) zeros zeros zeros (Some ones)
             (row_only 16 1) 15 0
           + rev_exclusive_in_chunk 16
               (kernel_dg (- 1) 32 1 1 1 (row_only 16 1) zeros zeros zeros (Some ones)
                  (row_only 16 1)) 15 0)"
proof -
  define L where "L = launch_decay (- 1) 32 1 1 16 (min (next_power_of_2 1) 64)
                 (cdiv 1 (min (next_power_of_2 1) 64)) 1 (row_only 16 1) zeros zeros zeros
                 (Some ones) (row_only 16 1)"
  have q16: "fst L 16 0 = 1"
    unfolding L_def
    using grad_q_parts [where BT = 16 and t = 16 and T = 32 and V = 1
        and NV = "cdiv 1 (min (next_power_of_2 1) 64)" and BV = "min (next_power_of_2 1) 64"
        and c = 0 and K = 1 and thr = "- 1" and scale = 1 and q = "row_only 16 1" and k = zeros
        and v = zeros and g = zeros and ?h0.0 = "Some ones" and dout = "row_only 16 1"]
    by (simp add: next_power_of_2_1 cdiv_def launch_inner_zero_value recurrence_state_idle
        initial_or_zero_def chunk_local_cumsum_zeros row_only_def ones_def)
  have "kernel_dg (- 1) 32 1 1 1 (row_only 16 1) zeros zeros zeros (Some ones) (row_only 16 1) 16 0
        = (\<Sum>s = 16..<(16 div 16) * 16 + 16.
             fst L s 0 * row_only 16 1 s 0 - fst (snd L) s 0 * zeros s 0)"
    unfolding kernel_dg_def L_def by (rule launch_dg_row) simp
  also have "\<dots> = (\<Sum>s = (16::nat)..<32. if s = 16 then fst L 16 0 else 0)"
    by (rule sum.cong) (simp_all add: row_only_def zeros_def)
  also have "\<dots> = 1" by (simp add: q16)
  finally have head: "kernel_dg (- 1) 32 1 1 1 (row_only 16 1) zeros zeros zeros (Some ones)
                        (row_only 16 1) 16 0 = 1" .
  have chunks: "{Suc (15 div 16)..<32 div 16} = {1::nat}" by auto
  have "(\<Sum>n = Suc (15 div 16)..<32 div 16.
            kernel_dg (- 1) 32 1 1 1 (row_only 16 1) zeros zeros zeros (Some ones)
              (row_only 16 1) (n * 16) 0) = 1"
    unfolding chunks using head by simp
  then have "backward_grad_g (forward_backward (- 1) 32 1 1 (row_only 16 1) zeros zeros zeros 1
                      (Some ones) False (row_only 16 1) None) 15 0
        = Some (kernel_dg (- 1) 32 1 1 1 (row_only 16 1) zeros zeros zeros (Some ones)
                  (row_only 16 1) 15 0 + 1)"
    using grad_g_parts [where T = 32 and t = 15 and thr = "- 1" and K = 1 and V = 1
        and scale = 1 and q = "row_only 16 1" and k = zeros and v = zeros and g = zeros
        and ?h0.0 = "Some ones" and dout = "row_only 16 1" and c = 0]
    by (simp add: forward_backward_eq backward_grad_g_def)
  then show ?thesis
    by (simp add: rev_exclusive_in_chunk_def)
qed

end
